theory Spec2Isabelle
  imports Complex_Main
begin

section \<open>JavaScript numbers\<close>

text \<open>
  The program computes with IEEE doubles (and stores vectors in Float32Array). The
  model keeps the structure of every computation and replaces the finite doubles by
  the reals, so rounding is not modelled. What is modelled is NaN: reading a typed
  array out of range gives \<open>undefined\<close>, which arithmetic turns into NaN, every
  operation with a NaN operand is NaN and every comparison with NaN is false.
  A division by zero is written NaN: the program's only division by a value that can
  be zero (in \<open>getClosestCurvePointOnTrack\<close>) multiplies its quotient, Infinity or NaN,
  by zero at once, which is NaN in both cases.
\<close>

datatype jsnum = Num real | NaN

instantiation jsnum :: "{plus, minus, uminus, times, inverse, ord}"
begin

fun plus_jsnum :: "jsnum \<Rightarrow> jsnum \<Rightarrow> jsnum" where
  "plus_jsnum (Num a) (Num b) = Num (a + b)"
| "plus_jsnum _ _ = NaN"

fun minus_jsnum :: "jsnum \<Rightarrow> jsnum \<Rightarrow> jsnum" where
  "minus_jsnum (Num a) (Num b) = Num (a - b)"
| "minus_jsnum _ _ = NaN"

fun uminus_jsnum :: "jsnum \<Rightarrow> jsnum" where
  "uminus_jsnum (Num a) = Num (- a)"
| "uminus_jsnum NaN = NaN"

fun times_jsnum :: "jsnum \<Rightarrow> jsnum \<Rightarrow> jsnum" where
  "times_jsnum (Num a) (Num b) = Num (a * b)"
| "times_jsnum _ _ = NaN"

fun divide_jsnum :: "jsnum \<Rightarrow> jsnum \<Rightarrow> jsnum" where
  "divide_jsnum (Num a) (Num b) = (if b = 0 then NaN else Num (a / b))"
| "divide_jsnum _ _ = NaN"

fun inverse_jsnum :: "jsnum \<Rightarrow> jsnum" where
  "inverse_jsnum (Num b) = (if b = 0 then NaN else Num (1 / b))"
| "inverse_jsnum NaN = NaN"

fun less_jsnum :: "jsnum \<Rightarrow> jsnum \<Rightarrow> bool" where
  "less_jsnum (Num a) (Num b) = (a < b)"
| "less_jsnum _ _ = False"

fun less_eq_jsnum :: "jsnum \<Rightarrow> jsnum \<Rightarrow> bool" where
  "less_eq_jsnum (Num a) (Num b) = (a \<le> b)"
| "less_eq_jsnum _ _ = False"

instance ..

end

text \<open>\<open>Math.sqrt\<close>, \<open>Math.sin\<close>, \<open>Math.cos\<close>, \<open>Math.acos\<close>, \<open>Math.min\<close>, \<open>Math.max\<close>.\<close>

fun Math_sqrt :: "jsnum \<Rightarrow> jsnum" where
  "Math_sqrt (Num a) = (if a < 0 then NaN else Num (sqrt a))"
| "Math_sqrt NaN = NaN"

fun Math_sin :: "jsnum \<Rightarrow> jsnum" where
  "Math_sin (Num a) = Num (sin a)"
| "Math_sin NaN = NaN"

fun Math_cos :: "jsnum \<Rightarrow> jsnum" where
  "Math_cos (Num a) = Num (cos a)"
| "Math_cos NaN = NaN"

fun Math_acos :: "jsnum \<Rightarrow> jsnum" where
  "Math_acos (Num a) = (if a < -1 \<or> 1 < a then NaN else Num (arccos a))"
| "Math_acos NaN = NaN"

fun Math_min :: "jsnum \<Rightarrow> jsnum \<Rightarrow> jsnum" where
  "Math_min (Num a) (Num b) = Num (min a b)"
| "Math_min _ _ = NaN"

fun Math_max :: "jsnum \<Rightarrow> jsnum \<Rightarrow> jsnum" where
  "Math_max (Num a) (Num b) = Num (max a b)"
| "Math_max _ _ = NaN"

text \<open>The strict equality \<open>x === 0\<close> of a number with the literal zero.\<close>

fun is_zero :: "jsnum \<Rightarrow> bool" where
  "is_zero (Num a) = (a = 0)"
| "is_zero NaN = False"

section \<open>Vectors: the functions of glMatrix the program calls\<close>

type_synonym vec3 = "jsnum \<times> jsnum \<times> jsnum"

definition vnum :: "real \<times> real \<times> real \<Rightarrow> vec3" where
  "vnum v = (case v of (x, y, z) \<Rightarrow> (Num x, Num y, Num z))"

definition vec3_create :: vec3 where
  "vec3_create = (Num 0, Num 0, Num 0)"

fun vec3_add :: "vec3 \<Rightarrow> vec3 \<Rightarrow> vec3" where
  "vec3_add (a0, a1, a2) (b0, b1, b2) = (a0 + b0, a1 + b1, a2 + b2)"

fun vec3_subtract :: "vec3 \<Rightarrow> vec3 \<Rightarrow> vec3" where
  "vec3_subtract (a0, a1, a2) (b0, b1, b2) = (a0 - b0, a1 - b1, a2 - b2)"

fun vec3_scaleAndAdd :: "vec3 \<Rightarrow> vec3 \<Rightarrow> jsnum \<Rightarrow> vec3" where
  "vec3_scaleAndAdd (a0, a1, a2) (b0, b1, b2) scale =
     (a0 + b0 * scale, a1 + b1 * scale, a2 + b2 * scale)"

text \<open>
  \<open>vec3.distance(a, b)\<close> has two parameters. JavaScript drops the arguments a call
  passes beyond a function's parameters, so a call \<open>vec3.distance(x, y, z)\<close> is
  \<open>vec3_distance x y\<close>.
\<close>

fun vec3_distance :: "vec3 \<Rightarrow> vec3 \<Rightarrow> jsnum" where
  "vec3_distance (a0, a1, a2) (b0, b1, b2) =
     (let x = b0 - a0; y = b1 - a1; z = b2 - a2
      in Math_sqrt (x * x + y * y + z * z))"

text \<open>\<open>vec3.rotateX(out, a, b, rad)\<close>: the point a rotated about the origin b.\<close>

fun vec3_rotateX :: "vec3 \<Rightarrow> vec3 \<Rightarrow> jsnum \<Rightarrow> vec3" where
  "vec3_rotateX a b rad =
     (let p = vec3_subtract a b;
          p0 = fst p; p1 = fst (snd p); p2 = snd (snd p);
          r = (p0,
               p1 * Math_cos rad - p2 * Math_sin rad,
               p1 * Math_sin rad + p2 * Math_cos rad)
      in vec3_add r b)"

fun vec3_rotateY :: "vec3 \<Rightarrow> vec3 \<Rightarrow> jsnum \<Rightarrow> vec3" where
  "vec3_rotateY a b rad =
     (let p = vec3_subtract a b;
          p0 = fst p; p1 = fst (snd p); p2 = snd (snd p);
          r = (p2 * Math_sin rad + p0 * Math_cos rad,
               p1,
               p2 * Math_cos rad - p0 * Math_sin rad)
      in vec3_add r b)"

fun vec3_rotateZ :: "vec3 \<Rightarrow> vec3 \<Rightarrow> jsnum \<Rightarrow> vec3" where
  "vec3_rotateZ a b rad =
     (let p = vec3_subtract a b;
          p0 = fst p; p1 = fst (snd p); p2 = snd (snd p);
          r = (p0 * Math_cos rad - p1 * Math_sin rad,
               p0 * Math_sin rad + p1 * Math_cos rad,
               p2)
      in vec3_add r b)"

text \<open>
  \<open>vec3.angle(a, b)\<close>: \<open>mag && dot / mag\<close> is \<open>mag\<close> itself when \<open>mag\<close> is zero or
  NaN, and the cosine is clamped to the interval from -1 to 1.
\<close>

fun vec3_angle :: "vec3 \<Rightarrow> vec3 \<Rightarrow> jsnum" where
  "vec3_angle (ax, ay, az) (bx, by, bz) =
     (let mag = Math_sqrt ((ax * ax + ay * ay + az * az) * (bx * bx + by * by + bz * bz));
          cosine = (if is_zero mag \<or> mag = NaN then mag
                    else (ax * bx + ay * by + az * bz) / mag)
      in Math_acos (Math_min (Math_max cosine (Num (- 1))) (Num 1)))"

definition deg2rad :: "jsnum \<Rightarrow> jsnum" where
  "deg2rad degrees = degrees * Num pi / Num 180"

definition rad2deg :: "jsnum \<Rightarrow> jsnum" where
  "rad2deg radians = radians * Num 180 / Num pi"


section \<open>The game state\<close>

text \<open>
  The four bound key names \<open>forward\<close>, \<open>right\<close>, \<open>backward\<close>, \<open>left\<close> are the letters
  w, a, s, d or (in the second mode) a permutation of them, so they are pairwise
  distinct and differ from the keys p, 1, 2, 3, h, b. The object \<open>controls\<close>, indexed by
  these names, is a function on the four logical directions, and a key event carries
  the direction its key is bound to or one of the other keys.
\<close>

datatype dir = Forward | Right | Backward | Left

datatype key = Ctl dir | KeyP | Key1 | Key2 | Key3 | KeyH | KeyB | KeyOther

record control =
  pressed :: bool
  val :: real

record carbox =
  maxX :: real
  minX :: real
  maxZ :: real
  minZ :: real

text \<open>
  \<open>gameStartTime\<close> is the number 0 (\<open>None\<close>) until the first accepted key, then a Date
  (\<open>Some\<close> of its milliseconds). \<open>keydownRegistered\<close> says whether \<open>onKeyDown\<close> is a
  listener of the window: \<open>addEventListener\<close> of a registered listener and
  \<open>removeEventListener\<close> of an absent one do nothing. \<open>curve_verts\<close> is
  \<open>track.curve_verts\<close>, \<open>twiTurning\<close> and \<open>twiDirection\<close> are the two fields of
  \<open>turningWhileIdle\<close> (the direction is \<open>None\<close> for the empty string).
\<close>

record state =
  gameStartTime :: "int option"
  gamePausedTime :: int
  gameCurrTime :: int
  atTitleScreen :: bool
  inHelpMenu :: bool
  hasStarted :: bool
  isPaused :: bool
  isIdle :: bool
  hasCrashed :: bool
  hasWon :: bool
  hasReachedCheckpoint :: bool
  twiTurning :: bool
  twiDirection :: "dir option"
  controls :: "dir \<Rightarrow> control"
  keydownRegistered :: bool
  curve_verts :: "real list"
  rotation :: vec3
  previousYRotation :: jsnum
  previousXRotation :: jsnum
  trackPosition :: vec3
  carBox :: carbox

definition maxPower :: real where "maxPower = 0.01"
definition maxReverse :: real where "maxReverse = - 0.002"
definition powerFactor :: real where "powerFactor = 0.00001"
definition reverseFactor :: real where "reverseFactor = - 0.000005"

definition carPosition :: vec3 where
  "carPosition = (Num 0.01, Num (- 0.08), Num (- 0.155))"

definition setPressed :: "dir \<Rightarrow> bool \<Rightarrow> state \<Rightarrow> state" where
  "setPressed d b s = s\<lparr>controls := (controls s)(d := (controls s d)\<lparr>pressed := b\<rparr>)\<rparr>"

definition setValue :: "dir \<Rightarrow> real \<Rightarrow> state \<Rightarrow> state" where
  "setValue d v s = s\<lparr>controls := (controls s)(d := (controls s d)\<lparr>val := v\<rparr>)\<rparr>"

section \<open>Physics\<close>

text \<open>
  \<open>Math.round\<close> rounds to the nearest integer, a half upwards. \<open>round_val\<close> is the
  program's \<open>round\<close>.
\<close>

definition Math_round :: "real \<Rightarrow> real" where
  "Math_round x = of_int \<lfloor>x + 1 / 2\<rfloor>"

definition round_val :: "real \<Rightarrow> real \<Rightarrow> real" where
  "round_val v factor = Math_round (1000000 * (v + factor)) / 1000000"

definition accelerate :: "state \<Rightarrow> state" where
  "accelerate s =
     (let forwardVel = val (controls s Forward);
          backwardVel = val (controls s Backward);
          s1 = (if \<not> isPaused s then
                  (let sa = (if pressed (controls s Forward) then
                               (if forwardVel < maxPower
                                then setValue Forward (round_val forwardVel powerFactor) s else s)
                             else
                               (if forwardVel > 0
                                then setValue Forward (round_val forwardVel (- powerFactor)) s else s))
                   in (if pressed (controls sa Backward) then
                         (if hasCrashed sa
                          then setValue Backward (round_val backwardVel (- reverseFactor * 5)) sa
                          else if backwardVel > maxReverse
                          then setValue Backward (round_val backwardVel reverseFactor) sa else sa)
                       else
                         (if backwardVel < 0
                          then setValue Backward (round_val backwardVel (- reverseFactor)) sa else sa)))
                else s)
      in if val (controls s1 Forward) = 0 \<and> val (controls s1 Backward) = 0
         then s1\<lparr>isIdle := True\<rparr> else s1)"

definition crash :: "state \<Rightarrow> state" where
  "crash s =
     (setValue Backward maxReverse (setPressed Backward True (s\<lparr>hasCrashed := True\<rparr>)))
       \<lparr>keydownRegistered := False\<rparr>"

section \<open>Progress and timer\<close>

definition checkReachedCheckpoint :: "state \<Rightarrow> state" where
  "checkReachedCheckpoint s =
     (if vec3_distance vec3_create (trackPosition s) > Num 3.5
      then s\<lparr>hasReachedCheckpoint := True\<rparr> else s)"

definition checkReachedFinish :: "state \<Rightarrow> state" where
  "checkReachedFinish s =
     (if vec3_distance vec3_create (trackPosition s) < Num 0.3
      then s\<lparr>keydownRegistered := False, hasWon := True\<rparr> else s)"

text \<open>\<open>currTime\<close> is the value of \<open>new Date()\<close>, in milliseconds.\<close>

definition calculateElapsedTime :: "int \<Rightarrow> state \<Rightarrow> state" where
  "calculateElapsedTime currTime s =
     (let s1 = (if isPaused s then s\<lparr>gamePausedTime := currTime - gameCurrTime s\<rparr> else s)
      in if \<not> hasWon s1 then s1\<lparr>gameCurrTime := currTime - gamePausedTime s1\<rparr> else s1)"

definition updateTimer :: "int \<Rightarrow> state \<Rightarrow> state" where
  "updateTimer currTime s = calculateElapsedTime currTime s"

section \<open>The track follower\<close>

text \<open>
  \<open>subarray(begin, end)\<close> of a typed array: a negative bound counts from the end, both
  bounds are clamped to the array, and the view is empty when they cross. An element
  read beyond the view is \<open>undefined\<close>, NaN in arithmetic.
\<close>

definition subarray :: "real list \<Rightarrow> int \<Rightarrow> int \<Rightarrow> real list" where
  "subarray xs b e =
     (let n = int (length xs);
          b' = (if b < 0 then max (n + b) 0 else min b n);
          e' = (if e < 0 then max (n + e) 0 else min e n)
      in take (nat (e' - b')) (drop (nat b') xs))"

definition rd :: "real list \<Rightarrow> nat \<Rightarrow> jsnum" where
  "rd xs i = (if i < length xs then Num (xs ! i) else NaN)"

text \<open>
  \<open>getCurvePoint\<close>: the second and the third rotation read \<open>curve_point\<close> again and
  write over the result of the one before.
\<close>

definition getCurvePoint :: "state \<Rightarrow> int \<Rightarrow> vec3 \<times> int" where
  "getCurvePoint s start_index =
     (let cp = subarray (curve_verts s) start_index (start_index + 3);
          curve_point = (rd cp 0, rd cp 1, rd cp 2);
          rot = rotation s;
          rotatedCurvePoint = vec3_rotateX curve_point vec3_create (deg2rad (fst rot));
          rotatedCurvePoint = vec3_rotateY curve_point vec3_create (deg2rad (fst (snd rot)));
          rotatedCurvePoint = vec3_rotateZ curve_point vec3_create (deg2rad (snd (snd rot)));
          rotatedCurvePoint = vec3_rotateY rotatedCurvePoint vec3_create (deg2rad (Num 85));
          tp = trackPosition s;
          rotatedCurvePoint = vec3_add rotatedCurvePoint
            (fst tp, fst (snd tp), snd (snd tp) + snd (snd carPosition))
      in (rotatedCurvePoint, start_index))"

text \<open>
  \<open>determinePointByDistance\<close>: both calls of \<open>vec3.distance\<close> pass a fresh vector, the
  car position and the point, so both measure from the fresh vector to the car position.
\<close>

definition determinePointByDistance :: "vec3 \<Rightarrow> vec3 \<Rightarrow> vec3" where
  "determinePointByDistance beforePoint afterPoint =
     (let pointBeforeDistance = vec3_distance vec3_create carPosition;
          pointAfterDistance = vec3_distance vec3_create carPosition
      in if pointAfterDistance < pointBeforeDistance then afterPoint else beforePoint)"

definition getClosestCurvePointOnTrack :: "vec3 \<Rightarrow> vec3 \<Rightarrow> vec3 \<Rightarrow> vec3" where
  "getClosestCurvePointOnTrack vertexOnTrack closestVertex carPos =
     (let V = vec3_subtract vertexOnTrack closestVertex;
          V0 = fst V; V1 = fst (snd V); V2 = snd (snd V);
          c0 = fst closestVertex; c1 = fst (snd closestVertex); c2 = snd (snd closestVertex);
          p0 = fst carPos; p1 = fst (snd carPos); p2 = snd (snd carPos);
          t = (- V0 * c0 + V0 * p0 - V1 * c1 + V1 * p1 - V2 * c2 + V2 * p2)
              / (V0 * V0 + V1 * V1 + V2 * V2)
      in vec3_scaleAndAdd closestVertex V t)"

record shortest =
  vertex :: vec3
  distance :: jsnum
  index :: int

text \<open>
  The loop of \<open>getClosestPointOnCurve\<close>: its condition tests \<open>i\<close>, the index of the
  point read last, and its body reads at \<open>j\<close>.
\<close>

function closestLoop :: "state \<Rightarrow> int \<Rightarrow> int \<Rightarrow> shortest \<Rightarrow> shortest" where
  "closestLoop s j i shortestDistance =
     (if i < int (length (curve_verts s)) then
        (let r = getCurvePoint s j;
             curve_point = fst r;
             i' = snd r;
             d = vec3_distance carPosition curve_point;
             shortestDistance' =
               (if d < distance shortestDistance
                then \<lparr>vertex = curve_point, distance = d, index = i'\<rparr>
                else shortestDistance)
         in closestLoop s (j + 3) i' shortestDistance')
      else shortestDistance)"
  by pat_completeness auto
termination
  by (relation "measure (\<lambda>(s, j, i, sd).
        if i < int (length (curve_verts s)) then nat (int (length (curve_verts s)) - j) + 1 else 0)")
     (auto simp: getCurvePoint_def Let_def)

declare closestLoop.simps [simp del]

definition getClosestPointOnCurve :: "state \<Rightarrow> shortest" where
  "getClosestPointOnCurve s =
     (let r = getCurvePoint s 0;
          curve_point = fst r;
          i = snd r;
          d = vec3_distance carPosition curve_point
      in closestLoop s 3 i \<lparr>vertex = curve_point, distance = d, index = i\<rparr>)"

text \<open>The start indices that one run of \<open>getClosestPointOnCurve\<close> passes to \<open>getCurvePoint\<close>.\<close>

function closestLoop_calls :: "state \<Rightarrow> int \<Rightarrow> int \<Rightarrow> int list" where
  "closestLoop_calls s j i =
     (if i < int (length (curve_verts s))
      then j # closestLoop_calls s (j + 3) (snd (getCurvePoint s j))
      else [])"
  by pat_completeness auto
termination
  by (relation "measure (\<lambda>(s, j, i).
        if i < int (length (curve_verts s)) then nat (int (length (curve_verts s)) - j) + 1 else 0)")
     (auto simp: getCurvePoint_def Let_def)

declare closestLoop_calls.simps [simp del]

definition getClosestPointOnCurve_calls :: "state \<Rightarrow> int list" where
  "getClosestPointOnCurve_calls s = 0 # closestLoop_calls s 3 (snd (getCurvePoint s 0))"

definition getDirection :: "state \<Rightarrow> bool" where
  "getDirection s =
     (let yaw = fst (snd (rotation s))
      in (yaw > Num 0 \<and> yaw < Num 90) \<or> (yaw > Num 270 \<and> yaw < Num 360) \<or>
         (yaw > Num 540 \<and> yaw < Num 630) \<or> (yaw > Num 810 \<and> yaw < Num 900))"

definition addX :: "vec3 \<Rightarrow> jsnum \<Rightarrow> vec3" where
  "addX v d = (fst v + d, snd v)"

text \<open>Whether \<open>collide\<close> calls \<open>crash\<close>: the test of the branch it takes.\<close>

definition collideFires :: "state \<Rightarrow> vec3 \<Rightarrow> jsnum \<Rightarrow> jsnum \<Rightarrow> bool" where
  "collideFires s point topLeft topRight =
     (if getDirection s then
        (if fst point > Num 0 then topLeft > Num 0.2 else topRight > Num 0.1)
      else
        (if fst point > Num 0 then topRight > Num 0.1 else topLeft > Num 0.2))"

definition collide :: "state \<Rightarrow> vec3 \<Rightarrow> vec3 \<Rightarrow> jsnum \<Rightarrow> jsnum \<Rightarrow> vec3 \<times> state" where
  "collide s point directionVector topLeft topRight =
     (let dirForward = getDirection s;
          r = (if dirForward then
                 (if fst point > Num 0 then
                    (if topLeft > Num 0.2
                     then (addX directionVector (Num (- 0.05)), crash s)
                     else (directionVector, s))
                  else
                    (if topRight > Num 0.1
                     then (addX directionVector (Num 0.05), crash s)
                     else (directionVector, s)))
               else
                 (if fst point > Num 0 then
                    (if topRight > Num 0.1
                     then (addX directionVector (Num (- 0.05)), crash s)
                     else (directionVector, s))
                  else
                    (if topLeft > Num 0.2
                     then (addX directionVector (Num 0.50), crash s)
                     else (directionVector, s))));
          s1 = snd r
      in (fst r, s1\<lparr>previousXRotation := fst (rotation s1),
                    previousYRotation := fst (snd (rotation s1))\<rparr>))"

text \<open>
  \<open>stayOnTrack\<close> up to its call of \<open>collide\<close>, with \<open>getRotationAngleAndTranslate\<close>
  written out in it: the state with the new pitch, the track point, the direction
  vector of the caller with its elevation changed, and the two corner distances.
\<close>

definition followTrack :: "state \<Rightarrow> vec3 \<Rightarrow> state \<times> vec3 \<times> vec3 \<times> jsnum \<times> jsnum" where
  "followTrack s directionVector =
     (let shortestDistance = getClosestPointOnCurve s;
          len = int (length (curve_verts s));
          r1 = getCurvePoint s (index shortestDistance + 3);
          vertex0 = fst r1; j = snd r1;
          r2 = getCurvePoint s (index shortestDistance - 3);
          beforeVertex = fst r2; k = snd r2;
          pointAfter0 = getClosestCurvePointOnTrack vertex0 (vertex shortestDistance) carPosition;
          pointBefore0 = getClosestCurvePointOnTrack beforeVertex (vertex shortestDistance) carPosition;
          vertex1 = (if j \<ge> len then fst (getCurvePoint s 0)
                     else if k < 0 then fst (getCurvePoint s (len - 3))
                     else vertex0);
          pointAfter = (if j \<ge> len
                        then getClosestCurvePointOnTrack vertex1 (vertex shortestDistance) carPosition
                        else pointAfter0);
          pointBefore = (if \<not> j \<ge> len \<and> k < 0
                         then getClosestCurvePointOnTrack vertex1 (vertex shortestDistance) carPosition
                         else pointBefore0);
          point = determinePointByDistance pointBefore pointAfter;
          directionVector1 =
            (fst directionVector,
             fst (snd directionVector) + (fst (snd carPosition) - fst (snd point)),
             snd (snd directionVector));
          angle = vec3_angle
            (vec3_subtract (fst point, fst (snd point) + Num 0.1, snd (snd point)) point)
            (vec3_subtract vertex1 point);
          s1 = s\<lparr>rotation := (- (Num 90 - rad2deg angle), snd (rotation s))\<rparr>;
          point1 = vec3_rotateX point vec3_create
            (- deg2rad (fst (rotation s1) - previousXRotation s1));
          point2 = vec3_rotateY point1 vec3_create
            (- deg2rad (fst (snd (rotation s1)) - previousYRotation s1));
          cb = carBox s1;
          topLeftDist = vec3_distance (Num (minX cb), fst (snd carPosition), Num (minZ cb)) point2;
          topRightDist = vec3_distance (Num (maxX cb), fst (snd carPosition), Num (minZ cb)) point2
      in (s1, point2, directionVector1, topLeftDist, topRightDist))"

definition stayOnTrack :: "state \<Rightarrow> vec3 \<Rightarrow> vec3 \<times> state" where
  "stayOnTrack s directionVector =
     (case followTrack s directionVector of
        (s1, point, directionVector1, topLeftDist, topRightDist) \<Rightarrow>
          collide s1 point directionVector1 topLeftDist topRightDist)"

section \<open>The frame update\<close>

text \<open>
  \<open>Object.keys(controls)\<close> lists the keys in the order \<open>setControls\<close> wrote them:
  forward, right, backward, left.
\<close>

definition driveByControls :: "state \<Rightarrow> vec3 \<times> state" where
  "driveByControls s =
     (let c = controls s;
          dz = Num 0 + Num (val (c Forward));
          yaw = fst (snd (rotation s));
          yaw = (if pressed (c Right) then yaw + Num (val (c Right)) else yaw);
          dz = dz + Num (val (c Backward));
          yaw = (if pressed (c Left) then yaw + Num (val (c Left)) else yaw)
      in ((Num 0, Num 0, dz),
          s\<lparr>rotation := (fst (rotation s), yaw, snd (snd (rotation s)))\<rparr>))"

definition recoverFromCrash :: "state \<Rightarrow> vec3 \<times> state" where
  "recoverFromCrash s =
     (let v = val (controls s Backward)
      in if v = 0
         then ((Num 0, Num 0, Num 0),
               (setPressed Backward False (s\<lparr>hasCrashed := False\<rparr>))\<lparr>keydownRegistered := True\<rparr>)
         else ((Num 0, Num 0, Num 0 + Num v), s))"

text \<open>
  \<open>updatePosition\<close> up to its call of \<open>stayOnTrack\<close>: the rotated direction vector and
  the state.
\<close>

definition controlStep :: "state \<Rightarrow> vec3 \<times> state" where
  "controlStep s =
     (let s1 = (if \<not> hasReachedCheckpoint s then checkReachedCheckpoint s
                else checkReachedFinish s);
          s2 = accelerate s1;
          r = (if \<not> isPaused s2 then
                 (if \<not> hasCrashed s2 then driveByControls s2 else recoverFromCrash s2)
               else ((Num 0, Num 0, Num 0), s2));
          directionVector = fst r; s3 = snd r;
          rot = rotation s3;
          directionVector = vec3_rotateX directionVector vec3_create (- deg2rad (fst rot));
          directionVector = vec3_rotateY directionVector vec3_create (- deg2rad (fst (snd rot)));
          directionVector = vec3_rotateZ directionVector vec3_create (- deg2rad (snd (snd rot)))
      in (directionVector, s3))"

text \<open>
  \<open>updatePosition\<close>. The matrices it builds afterwards (\<open>positionMatrix\<close> and the
  projection) go to the renderer only and are left out.
\<close>

definition updatePosition :: "state \<Rightarrow> state" where
  "updatePosition s =
     (case controlStep s of
        (directionVector, s3) \<Rightarrow>
          (case stayOnTrack s3 directionVector of
             (vector, s4) \<Rightarrow> s4\<lparr>trackPosition := vec3_add (trackPosition s4) vector\<rparr>))"

text \<open>Whether the frame update of a state calls \<open>crash\<close>.\<close>

definition frameCollides :: "state \<Rightarrow> bool" where
  "frameCollides s =
     (case controlStep s of
        (directionVector, s3) \<Rightarrow>
          (case followTrack s3 directionVector of
             (s1, point, directionVector1, topLeftDist, topRightDist) \<Rightarrow>
               collideFires s1 point topLeftDist topRightDist))"

definition render :: "int \<Rightarrow> state \<Rightarrow> state" where
  "render currTime s =
     (let s1 = updatePosition s
      in if gameStartTime s1 \<noteq> None then updateTimer currTime s1 else s1)"

section \<open>The event handlers\<close>

definition setControls :: "state \<Rightarrow> state" where
  "setControls s = s\<lparr>controls := (\<lambda>d. case d of
       Forward \<Rightarrow> \<lparr>pressed = False, val = 0\<rparr>
     | Right \<Rightarrow> \<lparr>pressed = False, val = - 0.5\<rparr>
     | Backward \<Rightarrow> \<lparr>pressed = False, val = 0\<rparr>
     | Left \<Rightarrow> \<lparr>pressed = False, val = 0.5\<rparr>)\<rparr>"

definition startPlaying :: "state \<Rightarrow> state" where
  "startPlaying s = s\<lparr>hasStarted := True\<rparr>"

text \<open>
  \<open>initializeGame\<close> ends with the first call of \<open>render\<close>. The three modes differ in
  the key bindings, the background and the light only.
\<close>

definition initializeGame :: "int \<Rightarrow> state \<Rightarrow> state" where
  "initializeGame currTime s = render currTime (startPlaying (setControls s))"

definition modeSelect :: "state \<Rightarrow> state" where
  "modeSelect s = s\<lparr>atTitleScreen := False\<rparr>"

definition helpMenu :: "state \<Rightarrow> state" where
  "helpMenu s = s\<lparr>inHelpMenu := True\<rparr>"

definition exitHelpMenu :: "state \<Rightarrow> state" where
  "exitHelpMenu s = s\<lparr>inHelpMenu := False\<rparr>"

definition pause :: "state \<Rightarrow> state" where
  "pause s =
     (if isPaused s then s\<lparr>keydownRegistered := True, isPaused := False\<rparr>
      else s\<lparr>keydownRegistered := False,
              controls := (\<lambda>d. (controls s d)\<lparr>pressed := False\<rparr>),
              isPaused := True\<rparr>)"

text \<open>
  In both key handlers the statement that writes \<open>controls[turningWhileIdle.direction]\<close>
  throws when the direction is still the empty string; nothing after it in the handler
  would change the state then, so the state is the one reached before it.
\<close>

definition onKeyDown :: "int \<Rightarrow> key \<Rightarrow> state \<Rightarrow> state" where
  "onKeyDown currTime k s =
     (if \<not> hasStarted s then s
      else case k of
        Ctl d \<Rightarrow>
          (let s1 = (if hasStarted s \<and> gameStartTime s = None
                     then s\<lparr>gameStartTime := Some currTime\<rparr> else s)
           in if (d = Right \<or> d = Left) \<and> isIdle s1
              then (setPressed d False s1)\<lparr>twiTurning := True, twiDirection := Some d\<rparr>
              else
                (let s2 = (setPressed d True s1)\<lparr>isIdle := False\<rparr>
                 in if (d = Forward \<or> d = Backward) \<and> twiTurning s2
                    then (case twiDirection s2 of
                            Some t \<Rightarrow> setPressed t True s2
                          | None \<Rightarrow> s2)
                    else s2))
      | _ \<Rightarrow> s)"

definition onKeyUp :: "int \<Rightarrow> key \<Rightarrow> state \<Rightarrow> state" where
  "onKeyUp currTime k s =
     (if atTitleScreen s then modeSelect s
      else if \<not> hasStarted s then
        (case k of
           Key1 \<Rightarrow> initializeGame currTime s
         | Key2 \<Rightarrow> initializeGame currTime s
         | Key3 \<Rightarrow> initializeGame currTime s
         | KeyH \<Rightarrow> (if \<not> inHelpMenu s then helpMenu s else s)
         | KeyB \<Rightarrow> (if inHelpMenu s then exitHelpMenu s else s)
         | _ \<Rightarrow> s)
      else
        (case k of
           KeyP \<Rightarrow> pause s
         | Ctl d \<Rightarrow>
             (let s1 = setPressed d False s;
                  s2 = (if (d = Forward \<or> d = Backward) \<and> twiTurning s1
                        then (case twiDirection s1 of
                                Some t \<Rightarrow> setPressed t False s1
                              | None \<Rightarrow> s1)
                        else s1)
              in if twiDirection s2 = Some d then s2\<lparr>twiTurning := False\<rparr> else s2)
         | _ \<Rightarrow> s))"

text \<open>
  One step of the session: a key event or an animation frame, at the time
  \<open>currTime\<close>. A key-down reaches \<open>onKeyDown\<close> only while it is registered; frames run
  once \<open>initializeGame\<close> has called \<open>render\<close>, which sets \<open>hasStarted\<close> first.
\<close>

datatype event = KeyDown key | KeyUp key | Frame

definition step :: "int \<Rightarrow> event \<Rightarrow> state \<Rightarrow> state" where
  "step currTime e s =
     (case e of
        KeyDown k \<Rightarrow> (if keydownRegistered s then onKeyDown currTime k s else s)
      | KeyUp k \<Rightarrow> onKeyUp currTime k s
      | Frame \<Rightarrow> (if hasStarted s then render currTime s else s))"

text \<open>
  The state when the page has loaded, for a track and a car box. \<open>controls\<close> is
  undefined until \<open>setControls\<close> writes it; no handler reads it before.
\<close>

definition initialState :: "real list \<Rightarrow> carbox \<Rightarrow> state" where
  "initialState cv cb =
     \<lparr>gameStartTime = None, gamePausedTime = 0, gameCurrTime = 0,
      atTitleScreen = True, inHelpMenu = False, hasStarted = False, isPaused = False,
      isIdle = True, hasCrashed = False, hasWon = False, hasReachedCheckpoint = False,
      twiTurning = False, twiDirection = None,
      controls = (\<lambda>d. \<lparr>pressed = False, val = 0\<rparr>),
      keydownRegistered = True, curve_verts = cv,
      rotation = (Num 0, Num 0, Num 0), previousYRotation = Num 0, previousXRotation = Num 0,
      trackPosition = (Num 0, Num (- 0.15), Num (- 0.25)), carBox = cb\<rparr>"

section \<open>Definitions for the statements\<close>

text \<open>The world-space transform of the sample with number m, as the track follower computes it.\<close>

definition worldSample :: "state \<Rightarrow> nat \<Rightarrow> vec3" where
  "worldSample s m = fst (getCurvePoint s (3 * int m))"

text \<open>
  The transform as the specification words it: pitch about X, then yaw about Y, then
  roll about Z, each applied to the result of the one before, then 85 degrees about Y,
  then the translation.
\<close>

definition specCurvePoint :: "state \<Rightarrow> vec3 \<Rightarrow> vec3" where
  "specCurvePoint s p =
     (let rot = rotation s;
          q = vec3_rotateX p vec3_create (deg2rad (fst rot));
          q = vec3_rotateY q vec3_create (deg2rad (fst (snd rot)));
          q = vec3_rotateZ q vec3_create (deg2rad (snd (snd rot)));
          q = vec3_rotateY q vec3_create (deg2rad (Num 85));
          tp = trackPosition s
      in vec3_add q (fst tp, fst (snd tp), snd (snd tp) + snd (snd carPosition)))"

text \<open>A track of two samples, one above the other, and a car box, for the examples.\<close>

definition poleTrack :: "real list" where
  "poleTrack = [0, 0, 0, 0, 1, 0]"

definition demoBox :: carbox where
  "demoBox = \<lparr>maxX = 0.02, minX = 0, maxZ = 0, minZ = - 0.405\<rparr>"

text \<open>The forward value after n calls of \<open>accelerate\<close>.\<close>

definition forwardAfter :: "nat \<Rightarrow> state \<Rightarrow> real" where
  "forwardAfter n s = val (controls ((accelerate ^^ n) s) Forward)"

text \<open>
  The state after a mode has been chosen and the forward key pressed, for the examples
  (without the first frame, which changes none of the fields the examples read).
\<close>

definition heldForward :: state where
  "heldForward = onKeyDown 0 (Ctl Forward)
     (startPlaying (setControls (modeSelect (initialState poleTrack demoBox))))"

text \<open>The number of a value that is not NaN.\<close>

definition dnum :: "jsnum \<Rightarrow> real" where
  "dnum x = (case x of Num a \<Rightarrow> a | NaN \<Rightarrow> 0)"

text \<open>The distance from the car position to the transformed sample with number m.\<close>

definition sampleDistance :: "state \<Rightarrow> nat \<Rightarrow> jsnum" where
  "sampleDistance s m = vec3_distance carPosition (worldSample s m)"

text \<open>
  The invariant of the search loop: the record holds the first sample of least distance
  among the samples 0 to m, the distances being the numbers f.
\<close>

definition closestUpTo :: "state \<Rightarrow> (nat \<Rightarrow> real) \<Rightarrow> nat \<Rightarrow> shortest \<Rightarrow> bool" where
  "closestUpTo s f m sd =
     (\<exists>k\<le>m. index sd = 3 * int k \<and> vertex sd = worldSample s k \<and>
        distance sd = Num (f k) \<and> (\<forall>q\<le>m. f k \<le> f q) \<and> (\<forall>q<k. f k < f q))"

text \<open>A state on the pole track whose roll is zero, with the track position (x, y, z).\<close>

definition onPole :: "state \<Rightarrow> real \<Rightarrow> real \<Rightarrow> real \<Rightarrow> bool" where
  "onPole s x y z \<longleftrightarrow>
     curve_verts s = poleTrack \<and> snd (snd (rotation s)) = Num 0 \<and>
     trackPosition s = (Num x, Num y, Num z) \<and> - 0.58 \<le> y"

text \<open>
  The state k frames after a crash: the backward value, and the crash flags until the
  80th frame.
\<close>

definition recoveringAt :: "nat \<Rightarrow> state \<Rightarrow> bool" where
  "recoveringAt k s \<longleftrightarrow>
     \<not> isPaused s \<and> val (controls s Backward) = of_int (25 * int k - 2000) / 1000000 \<and>
     (if k < 80 then hasCrashed s \<and> pressed (controls s Backward) \<and> \<not> keydownRegistered s
      else \<not> hasCrashed s \<and> \<not> pressed (controls s Backward) \<and> keydownRegistered s)"

text \<open>
  A car box as wide as the first collision throws the track, so that the car does not
  collide again afterwards.
\<close>

definition wideBox :: carbox where
  "wideBox = \<lparr>maxX = 0.5, minX = 0, maxZ = 0, minZ = - 0.405\<rparr>"

text \<open>
  The session on the pole track with a car box: the state when a mode has been chosen,
  before the first frame; the state after the key-ups of any key and of the key 1, which
  run the first frame; and, with the car box \<open>demoBox\<close>, that state after the key-up of p,
  which pauses the game.
\<close>

definition atStart :: "carbox \<Rightarrow> state" where
  "atStart cb = startPlaying (setControls (modeSelect (initialState poleTrack cb)))"

definition afterFirstFrame :: "carbox \<Rightarrow> state" where
  "afterFirstFrame cb =
     step 0 (KeyUp Key1) (step 0 (KeyUp KeyOther) (initialState poleTrack cb))"

definition pausedAfterFirstFrame :: state where
  "pausedAfterFirstFrame = step 0 (KeyUp KeyP) (afterFirstFrame demoBox)"

text \<open>
  A state on the pole track as the first collision leaves it: the track position is
  (0.5, y, -0.25), the pitch is -90 degrees as in the frame before, the car box is \<open>wideBox\<close>.
\<close>

definition overPole :: "state \<Rightarrow> real \<Rightarrow> bool" where
  "overPole s y \<longleftrightarrow>
     onPole s 0.5 y (- 0.25) \<and> rotation s = (Num (- 90), Num 0, Num 0) \<and>
     previousXRotation s = Num (- 90) \<and> previousYRotation s = Num 0 \<and> carBox s = wideBox"

text \<open>States of a running game: one that is won, one far from the origin, one near it.\<close>

definition wonState :: state where
  "wonState = heldForward\<lparr>hasReachedCheckpoint := True, hasWon := True\<rparr>"

definition farState :: state where
  "farState = heldForward\<lparr>trackPosition := (Num 0, Num 0, Num (- 3.55))\<rparr>"

definition nearState :: state where
  "nearState = heldForward\<lparr>hasReachedCheckpoint := True,
                            trackPosition := (Num 0, Num 0, Num 0.2)\<rparr>"

text \<open>
  A session: the events in their order, each with the time at which it happens, and the
  number of animation frames among them.
\<close>

fun run :: "(int \<times> event) list \<Rightarrow> state \<Rightarrow> state" where
  "run [] s = s"
| "run ((currTime, e) # es) s = run es (step currTime e s)"

definition frames :: "(int \<times> event) list \<Rightarrow> nat" where
  "frames es = length (filter (\<lambda>te. snd te = Frame) es)"

text \<open>
  No frame of the session collides: \<open>collide\<close> does not call \<open>crash\<close> in any frame run
  from the state the events before it have reached.
\<close>

fun noCollision :: "(int \<times> event) list \<Rightarrow> state \<Rightarrow> bool" where
  "noCollision [] s = True"
| "noCollision ((currTime, e) # es) s =
     ((e = Frame \<longrightarrow> \<not> frameCollides s) \<and> noCollision es (step currTime e s))"

text \<open>
  The events that leave a crash recovery alone: all but the key-up of the backward key,
  which clears \<open>controls[backward].pressed\<close>, and the key-up of p, which pauses the game.
\<close>

definition undisturbed :: "(int \<times> event) list \<Rightarrow> bool" where
  "undisturbed es \<longleftrightarrow>
     (\<forall>te \<in> set es. snd te \<noteq> KeyUp (Ctl Backward) \<and> snd te \<noteq> KeyUp KeyP)"

text \<open>
  The events of a recovery: the player releases the forward key and presses it again,
  then 80 frames follow.
\<close>

definition recoverySession :: "(int \<times> event) list" where
  "recoverySession =
     (0, KeyUp (Ctl Forward)) # (0, KeyDown (Ctl Forward)) # replicate 80 (0, Frame)"

section \<open>Choosing between the two projections\<close>

lemma determinePointByDistance_before:
  "determinePointByDistance beforePoint afterPoint = beforePoint"
  by (cases "vec3_distance vec3_create carPosition")
     (simp_all add: determinePointByDistance_def Let_def)

text \<open>
  The comparison never holds, so the point returned is \<open>beforePoint\<close> also when
  \<open>afterPoint\<close> is strictly closer to the car: here \<open>afterPoint\<close> is the car position itself.
\<close>

lemma determinePointByDistance_closer_after:
  "vec3_distance carPosition (Num 0.01, Num (- 0.08), Num (- 0.155))
     < vec3_distance carPosition (Num 1.01, Num (- 0.08), Num (- 0.155)) \<and>
   determinePointByDistance (Num 1.01, Num (- 0.08), Num (- 0.155))
     (Num 0.01, Num (- 0.08), Num (- 0.155)) = (Num 1.01, Num (- 0.08), Num (- 0.155))"
  by (simp add: determinePointByDistance_before carPosition_def Let_def)

text \<open>
  C1, as amended: \<open>determinePointByDistance\<close> returns \<open>beforePoint\<close> whenever
  \<open>afterPoint\<close> is not strictly closer to the car position than \<open>beforePoint\<close>, in
  particular when the two distances are equal: a tie goes to the point before.
\<close>

theorem determinePointByDistance_tie_before:
  "\<not> vec3_distance carPosition afterPoint < vec3_distance carPosition beforePoint \<Longrightarrow>
   determinePointByDistance beforePoint afterPoint = beforePoint"
  by (rule determinePointByDistance_before)

theorem determinePointByDistance_tie_before_witness:
  "\<not> vec3_distance carPosition (Num (- 0.99), Num (- 0.08), Num (- 0.155))
     < vec3_distance carPosition (Num 1.01, Num (- 0.08), Num (- 0.155)) \<and>
   determinePointByDistance (Num 1.01, Num (- 0.08), Num (- 0.155))
     (Num (- 0.99), Num (- 0.08), Num (- 0.155)) = (Num 1.01, Num (- 0.08), Num (- 0.155))"
proof -
  have h: "\<not> vec3_distance carPosition (Num (- 0.99), Num (- 0.08), Num (- 0.155))
     < vec3_distance carPosition (Num 1.01, Num (- 0.08), Num (- 0.155))"
    by (simp add: carPosition_def Let_def)
  show ?thesis using h determinePointByDistance_tie_before [OF h] by simp
qed

text \<open>
  C1 as stated fails: the two points below are at the same distance 1 from the car
  position, and the point returned is not the point after.
\<close>

theorem determinePointByDistance_tie_counterexample:
  "vec3_distance carPosition (Num (- 0.99), Num (- 0.08), Num (- 0.155))
     = vec3_distance carPosition (Num 1.01, Num (- 0.08), Num (- 0.155)) \<and>
   determinePointByDistance (Num 1.01, Num (- 0.08), Num (- 0.155))
     (Num (- 0.99), Num (- 0.08), Num (- 0.155)) \<noteq> (Num (- 0.99), Num (- 0.08), Num (- 0.155))"
  by (simp add: determinePointByDistance_before carPosition_def Let_def)

section \<open>The transform of a sample\<close>

lemma cos85_pos: "0 < cos (85 * pi / 180 :: real)"
  by (rule cos_gt_zero) (simp_all add: field_simps)

lemma sin85_pos: "0 < sin (85 * pi / 180 :: real)"
  by (rule sin_gt_zero) (simp_all add: field_simps)

text \<open>
  C3 fails on the code: with a yaw of 90 degrees, the sample (1, 0, 0) is transformed
  without the yaw. The transform the specification words gives another point.
\<close>

theorem getCurvePoint_ignores_yaw:
  "fst (getCurvePoint
         ((initialState [1, 0, 0, 0, 0, 1] demoBox)\<lparr>rotation := (Num 0, Num 90, Num 0)\<rparr>) 0)
     = (Num (cos (85 * pi / 180)), Num (- 0.15), Num (- 0.405 - sin (85 * pi / 180))) \<and>
   specCurvePoint
       ((initialState [1, 0, 0, 0, 0, 1] demoBox)\<lparr>rotation := (Num 0, Num 90, Num 0)\<rparr>)
       (Num 1, Num 0, Num 0)
     = (Num (- sin (85 * pi / 180)), Num (- 0.15), Num (- 0.405 - cos (85 * pi / 180))) \<and>
   fst (getCurvePoint
         ((initialState [1, 0, 0, 0, 0, 1] demoBox)\<lparr>rotation := (Num 0, Num 90, Num 0)\<rparr>) 0)
     \<noteq> specCurvePoint
       ((initialState [1, 0, 0, 0, 0, 1] demoBox)\<lparr>rotation := (Num 0, Num 90, Num 0)\<rparr>)
       (Num 1, Num 0, Num 0)"
  using cos85_pos sin85_pos
  by (simp add: getCurvePoint_def specCurvePoint_def initialState_def subarray_def rd_def
      deg2rad_def vec3_create_def carPosition_def Let_def)

section \<open>The timer while paused\<close>

text \<open>
  C9: a call of \<open>calculateElapsedTime\<close> while the game is paused and not won leaves
  \<open>gameCurrTime\<close> as it was, whatever the time of the call; \<open>gameStartTime\<close>, the other
  value the displayed time is computed from, is not written at all.
\<close>

theorem calculateElapsedTime_paused:
  "isPaused s \<Longrightarrow> \<not> hasWon s \<Longrightarrow>
   gameCurrTime (calculateElapsedTime currTime s) = gameCurrTime s \<and>
   gameStartTime (calculateElapsedTime currTime s) = gameStartTime s"
  by (simp add: calculateElapsedTime_def Let_def)

theorem calculateElapsedTime_paused_witness:
  "isPaused ((initialState poleTrack demoBox)\<lparr>isPaused := True, gameCurrTime := 5000\<rparr>) \<and>
   \<not> hasWon ((initialState poleTrack demoBox)\<lparr>isPaused := True, gameCurrTime := 5000\<rparr>) \<and>
   gameCurrTime (calculateElapsedTime 99000
     ((initialState poleTrack demoBox)\<lparr>isPaused := True, gameCurrTime := 5000\<rparr>)) = 5000"
  using calculateElapsedTime_paused
    [of "(initialState poleTrack demoBox)\<lparr>isPaused := True, gameCurrTime := 5000\<rparr>" 99000]
  by (simp add: initialState_def)

section \<open>The acceleration ramp\<close>

lemma Math_round_of_int: "Math_round (of_int k) = of_int k"
  by (simp add: Math_round_def)

lemma round_val_step:
  "round_val (of_int m / 1000000) (of_int d / 1000000) = of_int (m + d) / 1000000"
proof -
  have "1000000 * (of_int m / 1000000 + of_int d / 1000000) = (of_int (m + d) :: real)"
    by simp
  then show ?thesis
    unfolding round_val_def by (simp only: Math_round_of_int)
qed

lemma accelerate_keeps:
  "isPaused (accelerate s) = isPaused s"
  "pressed (controls (accelerate s) d) = pressed (controls s d)"
  "hasCrashed (accelerate s) = hasCrashed s"
  "hasStarted (accelerate s) = hasStarted s"
  "atTitleScreen (accelerate s) = atTitleScreen s"
  by (simp_all add: accelerate_def Let_def setValue_def)

lemma accelerate_pow_keeps:
  "isPaused ((accelerate ^^ n) s) = isPaused s"
  "pressed (controls ((accelerate ^^ n) s) d) = pressed (controls s d)"
  "hasStarted ((accelerate ^^ n) s) = hasStarted s"
  "atTitleScreen ((accelerate ^^ n) s) = atTitleScreen s"
  by (induction n) (simp_all add: accelerate_keeps)

lemma accelerate_forward:
  "val (controls (accelerate s) Forward) =
     (let v = val (controls s Forward)
      in if isPaused s then v
         else if pressed (controls s Forward)
         then (if v < maxPower then round_val v powerFactor else v)
         else (if v > 0 then round_val v (- powerFactor) else v))"
  by (simp add: accelerate_def Let_def setValue_def)

lemma accelerate_forward_pressed:
  assumes "\<not> isPaused s" "pressed (controls s Forward)"
    and "val (controls s Forward) = of_int m / 1000000"
  shows "val (controls (accelerate s) Forward) =
           (if m < 10000 then of_int (m + 10) / 1000000 else of_int m / 1000000)"
proof -
  have pf: "powerFactor = of_int 10 / 1000000" by (simp add: powerFactor_def)
  have "round_val (of_int m / 1000000) powerFactor = of_int (m + 10) / 1000000"
    unfolding pf by (rule round_val_step)
  then show ?thesis
    unfolding accelerate_forward Let_def assms(3) using assms(1,2)
    by (simp add: maxPower_def)
qed

lemma accelerate_forward_released:
  assumes "\<not> isPaused s" "\<not> pressed (controls s Forward)"
    and "val (controls s Forward) = of_int m / 1000000"
  shows "val (controls (accelerate s) Forward) =
           (if 0 < m then of_int (m - 10) / 1000000 else of_int m / 1000000)"
proof -
  have pf: "- powerFactor = of_int (- 10) / 1000000" by (simp add: powerFactor_def)
  have "round_val (of_int m / 1000000) (- powerFactor) = of_int (m + (- 10)) / 1000000"
    unfolding pf by (rule round_val_step)
  then show ?thesis
    unfolding accelerate_forward Let_def assms(3) using assms(1,2)
    by simp
qed

lemma ramp_up:
  assumes "\<not> isPaused s" "pressed (controls s Forward)" "val (controls s Forward) = 0"
  shows "forwardAfter n s = of_int (10 * int (min n 1000)) / 1000000"
  unfolding forwardAfter_def
proof (induction n)
  case 0
  then show ?case using assms by simp
next
  case (Suc n)
  have "val (controls (accelerate ((accelerate ^^ n) s)) Forward) =
      (if 10 * int (min n 1000) < 10000 then of_int (10 * int (min n 1000) + 10) / 1000000
       else of_int (10 * int (min n 1000)) / 1000000)"
    using assms Suc by (intro accelerate_forward_pressed) (simp_all add: accelerate_pow_keeps)
  then show ?case by (auto simp: min_def)
qed

lemma ramp_down:
  assumes "\<not> isPaused s" "\<not> pressed (controls s Forward)"
    and "val (controls s Forward) = of_int (10 * int m) / 1000000"
  shows "forwardAfter k s = of_int (10 * int (m - k)) / 1000000"
  unfolding forwardAfter_def
proof (induction k)
  case 0
  then show ?case using assms by simp
next
  case (Suc k)
  have "val (controls (accelerate ((accelerate ^^ k) s)) Forward) =
      (if 0 < 10 * int (m - k) then of_int (10 * int (m - k) - 10) / 1000000
       else of_int (10 * int (m - k)) / 1000000)"
    using assms Suc by (intro accelerate_forward_released) (simp_all add: accelerate_pow_keeps)
  then show ?case by (auto simp: of_nat_diff)
qed

lemma onKeyUp_forward:
  assumes "hasStarted s" "\<not> atTitleScreen s"
  shows "\<not> pressed (controls (onKeyUp t (Ctl Forward) s) Forward)"
    and "val (controls (onKeyUp t (Ctl Forward) s) Forward) = val (controls s Forward)"
    and "isPaused (onKeyUp t (Ctl Forward) s) = isPaused s"
  using assms
  by (auto simp: onKeyUp_def Let_def setPressed_def split: option.splits)

lemma ramp_closed:
  assumes "\<not> isPaused s" "pressed (controls s Forward)" "val (controls s Forward) = 0"
  shows "forwardAfter n s = real (min n 1000) / 100000"
  by (simp add: ramp_up [OF assms])

lemma release_closed:
  assumes "\<not> isPaused s" "hasStarted s" "\<not> atTitleScreen s"
    "pressed (controls s Forward)" "val (controls s Forward) = 0"
  shows "forwardAfter k (onKeyUp t (Ctl Forward) ((accelerate ^^ n) s))
           = real (min n 1000 - k) / 100000"
proof -
  let ?s1 = "(accelerate ^^ n) s"
  have v: "val (controls ?s1 Forward) = of_int (10 * int (min n 1000)) / 1000000"
    using ramp_up [OF assms(1,4,5), of n] by (simp add: forwardAfter_def)
  have "forwardAfter k (onKeyUp t (Ctl Forward) ?s1)
          = of_int (10 * int (min n 1000 - k)) / 1000000"
    using assms v
    by (intro ramp_down) (simp_all add: onKeyUp_forward accelerate_pow_keeps)
  then show ?thesis by simp
qed

text \<open>
  C7: from the forward value 0 with the forward key held and the game not paused, the
  value after n calls of \<open>accelerate\<close> is n hundred-thousandths up to the cap \<open>maxPower\<close>
  (reached after 1000 calls), so it increases strictly below the cap and is constant at
  it. After the key-up of the forward key, at any moment of the ramp, each call
  decreases the value by the same step until it is exactly 0, where it stays; it is
  never negative.
\<close>

theorem forward_ramp:
  assumes "\<not> isPaused s" "hasStarted s" "\<not> atTitleScreen s"
    "pressed (controls s Forward)" "val (controls s Forward) = 0"
  shows "(\<forall>n. forwardAfter n s = real (min n 1000) / 100000) \<and>
         (\<forall>n. forwardAfter n s < maxPower \<longrightarrow> forwardAfter n s < forwardAfter (Suc n) s) \<and>
         (\<forall>n. forwardAfter n s = maxPower \<longrightarrow> forwardAfter (Suc n) s = maxPower) \<and>
         (\<forall>n. forwardAfter n s \<le> maxPower) \<and>
         forwardAfter 1000 s = maxPower \<and>
         (\<forall>n k. forwardAfter k (onKeyUp t (Ctl Forward) ((accelerate ^^ n) s))
                  = real (min n 1000 - k) / 100000) \<and>
         (\<forall>n k. 0 < forwardAfter k (onKeyUp t (Ctl Forward) ((accelerate ^^ n) s)) \<longrightarrow>
                 forwardAfter (Suc k) (onKeyUp t (Ctl Forward) ((accelerate ^^ n) s))
                   < forwardAfter k (onKeyUp t (Ctl Forward) ((accelerate ^^ n) s))) \<and>
         (\<forall>n k. forwardAfter k (onKeyUp t (Ctl Forward) ((accelerate ^^ n) s)) = 0 \<longrightarrow>
                 forwardAfter (Suc k) (onKeyUp t (Ctl Forward) ((accelerate ^^ n) s)) = 0) \<and>
         (\<forall>n k. 0 \<le> forwardAfter k (onKeyUp t (Ctl Forward) ((accelerate ^^ n) s))) \<and>
         (\<forall>n. forwardAfter (min n 1000) (onKeyUp t (Ctl Forward) ((accelerate ^^ n) s)) = 0)"
proof -
  note up = ramp_closed [OF assms(1,4,5)]
  note dn = release_closed [OF assms, of _ t]
  show ?thesis
    unfolding up dn maxPower_def
    by (auto simp: min_def field_simps)
qed


lemma heldForward_facts:
  "\<not> isPaused heldForward" "hasStarted heldForward" "\<not> atTitleScreen heldForward"
  "pressed (controls heldForward Forward)" "val (controls heldForward Forward) = 0"
  by (simp_all add: heldForward_def onKeyDown_def startPlaying_def setControls_def
      modeSelect_def initialState_def setPressed_def Let_def)

theorem forward_ramp_witness:
  "\<not> isPaused heldForward \<and> hasStarted heldForward \<and> \<not> atTitleScreen heldForward \<and>
   pressed (controls heldForward Forward) \<and> val (controls heldForward Forward) = 0 \<and>
   forwardAfter 3 heldForward = 3 / 100000 \<and>
   forwardAfter 1000 heldForward = maxPower \<and>
   forwardAfter 2 (onKeyUp 7 (Ctl Forward) ((accelerate ^^ 5) heldForward)) = 3 / 100000 \<and>
   forwardAfter 5 (onKeyUp 7 (Ctl Forward) ((accelerate ^^ 5) heldForward)) = 0"
proof -
  note r = forward_ramp [OF heldForward_facts, of 7]
  have up: "\<forall>n. forwardAfter n heldForward = real (min n 1000) / 100000"
    using r by blast
  have dn: "\<forall>n k. forwardAfter k (onKeyUp 7 (Ctl Forward) ((accelerate ^^ n) heldForward))
                  = real (min n 1000 - k) / 100000"
    using r by blast
  have a: "forwardAfter 3 heldForward = 3 / 100000"
    using up [rule_format, of 3] by simp
  have b: "forwardAfter 1000 heldForward = maxPower"
    using r by blast
  have c: "forwardAfter 2 (onKeyUp 7 (Ctl Forward) ((accelerate ^^ 5) heldForward)) = 3 / 100000"
    using dn [rule_format, of 2 5] by simp
  have d: "forwardAfter 5 (onKeyUp 7 (Ctl Forward) ((accelerate ^^ 5) heldForward)) = 0"
    using dn [rule_format, of 5 5] by simp
  show ?thesis using heldForward_facts a b c d by simp
qed

section \<open>The nearest-sample search\<close>

lemma snd_getCurvePoint [simp]: "snd (getCurvePoint s j) = j"
  by (simp add: getCurvePoint_def Let_def)

lemma subarray_inside:
  assumes "0 \<le> i" "i + 3 \<le> int (length xs)"
  shows "subarray xs i (i + 3) = [xs ! nat i, xs ! (nat i + 1), xs ! (nat i + 2)]"
proof -
  have "subarray xs i (i + 3) = take 3 (drop (nat i) xs)"
    using assms by (simp add: subarray_def Let_def min_def)
  also have "\<dots> = [xs ! nat i, xs ! (nat i + 1), xs ! (nat i + 2)]"
  proof (rule nth_equalityI)
    show "length (take 3 (drop (nat i) xs)) = length [xs ! nat i, xs ! (nat i + 1), xs ! (nat i + 2)]"
      using assms by simp
  next
    fix q assume "q < length (take 3 (drop (nat i) xs))"
    then have "q < 3" by simp
    then have "q = 0 \<or> q = 1 \<or> q = 2" by arith
    then show "take 3 (drop (nat i) xs) ! q = [xs ! nat i, xs ! (nat i + 1), xs ! (nat i + 2)] ! q"
      using assms by auto
  qed
  finally show ?thesis .
qed

lemma subarray_beyond:
  assumes "int (length xs) \<le> i"
  shows "subarray xs i (i + 3) = []"
  using assms by (simp add: subarray_def Let_def min_def)

lemma getCurvePoint_inside:
  assumes "snd (snd (rotation s)) = Num rr" "trackPosition s = (Num tx, Num ty, Num tz)"
    and "0 \<le> i" "i + 3 \<le> int (length (curve_verts s))"
  shows "\<exists>x y z. fst (getCurvePoint s i) = (Num x, Num y, Num z)"
  using assms(1,2)
  by (simp add: getCurvePoint_def subarray_inside [OF assms(3,4)] rd_def deg2rad_def
      vec3_create_def carPosition_def Let_def)

lemma getCurvePoint_beyond:
  assumes "int (length (curve_verts s)) \<le> i"
  shows "fst (getCurvePoint s i) = (NaN, NaN, NaN)"
  by (simp add: getCurvePoint_def subarray_beyond [OF assms] rd_def vec3_create_def Let_def)

lemma vec3_distance_Num:
  "vec3_distance (Num a0, Num a1, Num a2) (Num b0, Num b1, Num b2)
     = Num (sqrt ((b0 - a0) * (b0 - a0) + (b1 - a1) * (b1 - a1) + (b2 - a2) * (b2 - a2)))"
proof -
  have "\<not> (b0 - a0) * (b0 - a0) + (b1 - a1) * (b1 - a1) + (b2 - a2) * (b2 - a2) < 0"
    by (simp add: not_less add_nonneg_nonneg)
  then show ?thesis by (simp add: Let_def)
qed

lemma vec3_distance_numeric:
  "\<exists>d. vec3_distance (Num a0, Num a1, Num a2) (Num b0, Num b1, Num b2) = Num d"
  using vec3_distance_Num by blast

lemma sampleDistance_inside:
  assumes "snd (snd (rotation s)) = Num rr" "trackPosition s = (Num tx, Num ty, Num tz)"
    and "int (length (curve_verts s)) = 3 * int N" "m < N"
  shows "\<exists>d. sampleDistance s m = Num d"
proof -
  have "3 * int m + 3 \<le> int (length (curve_verts s))" using assms(3,4) by simp
  then obtain x y z where "fst (getCurvePoint s (3 * int m)) = (Num x, Num y, Num z)"
    using getCurvePoint_inside [OF assms(1,2), of "3 * int m"] by auto
  then have "sampleDistance s m
      = vec3_distance (Num 0.01, Num (- 0.08), Num (- 0.155)) (Num x, Num y, Num z)"
    by (simp only: sampleDistance_def worldSample_def carPosition_def)
  then show ?thesis by (simp only: vec3_distance_numeric)
qed

lemma sampleDistance_beyond:
  assumes "int (length (curve_verts s)) = 3 * int N"
  shows "vec3_distance carPosition (fst (getCurvePoint s (3 * int N))) = NaN"
  using getCurvePoint_beyond [of s "3 * int N"] assms
  by (simp add: carPosition_def Let_def)

lemma closestLoop_last:
  assumes len: "int (length (curve_verts s)) = 3 * int N" and m: "Suc m = N"
  shows "closestLoop s (3 * int m + 3) (3 * int m) sd = sd"
proof -
  have eq: "3 * int m + 3 = 3 * int N" using m by auto
  have nan: "vec3_distance carPosition (fst (getCurvePoint s (3 * int m + 3))) = NaN"
    unfolding eq by (rule sampleDistance_beyond [OF len])
  have "closestLoop s (3 * int m + 3) (3 * int m) sd
          = closestLoop s (3 * int m + 3 + 3) (3 * int m + 3) sd"
    using m len nan by (subst closestLoop.simps) (simp add: Let_def)
  also have "\<dots> = sd"
    using len m by (subst closestLoop.simps) auto
  finally show ?thesis .
qed

lemma closestLoop_step:
  assumes len: "int (length (curve_verts s)) = 3 * int N" and m: "Suc m < N"
  shows "closestLoop s (3 * int m + 3) (3 * int m) sd
           = closestLoop s (3 * int (Suc m) + 3) (3 * int (Suc m))
               (if sampleDistance s (Suc m) < distance sd
                then \<lparr>vertex = worldSample s (Suc m), distance = sampleDistance s (Suc m),
                      index = 3 * int (Suc m)\<rparr>
                else sd)"
proof -
  have eq: "3 * int m + 3 = 3 * int (Suc m)" by simp
  show ?thesis
    using m len
    by (subst closestLoop.simps)
       (simp only: eq Let_def sampleDistance_def worldSample_def snd_getCurvePoint, simp)
qed


lemma closestUpTo_next:
  assumes inv: "closestUpTo s f m sd" and d: "sampleDistance s (Suc m) = Num (f (Suc m))"
  shows "closestUpTo s f (Suc m)
           (if sampleDistance s (Suc m) < distance sd
            then \<lparr>vertex = worldSample s (Suc m), distance = sampleDistance s (Suc m),
                  index = 3 * int (Suc m)\<rparr>
            else sd)"
proof -
  obtain k where k: "k \<le> m" "index sd = 3 * int k" "vertex sd = worldSample s k"
      "distance sd = Num (f k)" "\<forall>q\<le>m. f k \<le> f q" "\<forall>q<k. f k < f q"
    using inv unfolding closestUpTo_def by blast
  show ?thesis
  proof (cases "f (Suc m) < f k")
    case True
    have le: "\<forall>q\<le>Suc m. f (Suc m) \<le> f q"
    proof (intro allI impI)
      fix q assume "q \<le> Suc m"
      then consider "q = Suc m" | "q \<le> m" by linarith
      then show "f (Suc m) \<le> f q"
      proof cases
        case 1 then show ?thesis by simp
      next
        case 2
        then have "f k \<le> f q" using k(5) by blast
        then show ?thesis using True by linarith
      qed
    qed
    have lt: "\<forall>q<Suc m. f (Suc m) < f q"
    proof (intro allI impI)
      fix q assume "q < Suc m"
      then have "q \<le> m" by simp
      then have "f k \<le> f q" using k(5) by blast
      then show "f (Suc m) < f q" using True by linarith
    qed
    have "closestUpTo s f (Suc m)
        \<lparr>vertex = worldSample s (Suc m), distance = Num (f (Suc m)), index = 3 * int (Suc m)\<rparr>"
      unfolding closestUpTo_def using le lt
      by (intro exI [of _ "Suc m"]) simp
    then show ?thesis using True k(4) d by simp
  next
    case False
    have "\<forall>q\<le>Suc m. f k \<le> f q"
    proof (intro allI impI)
      fix q assume "q \<le> Suc m"
      then consider "q = Suc m" | "q \<le> m" by linarith
      then show "f k \<le> f q"
      proof cases
        case 1 then show ?thesis using False by simp
      next
        case 2 then show ?thesis using k(5) by blast
      qed
    qed
    then have "closestUpTo s f (Suc m) sd"
      unfolding closestUpTo_def using k
      by (intro exI [of _ k]) simp
    then show ?thesis using False k(4) d by simp
  qed
qed

lemma closestLoop_invariant:
  assumes f: "\<forall>q<N. sampleDistance s q = Num (f q)"
    and len: "int (length (curve_verts s)) = 3 * int N"
  shows "m < N \<Longrightarrow> closestUpTo s f m sd \<Longrightarrow>
         closestUpTo s f (N - 1) (closestLoop s (3 * int m + 3) (3 * int m) sd)"
proof (induction "N - 1 - m" arbitrary: m sd)
  case 0
  then have mN: "Suc m = N" "m = N - 1" by simp_all
  show ?case
    using closestLoop_last [OF len mN(1)] 0(3) mN(2) by simp
next
  case (Suc n)
  then have m1: "Suc m < N" by simp
  have d: "sampleDistance s (Suc m) = Num (f (Suc m))" using f m1 by blast
  have n: "n = N - 1 - Suc m" using Suc.hyps(2) by simp
  show ?case
    unfolding closestLoop_step [OF len m1]
    by (rule Suc.hyps(1) [OF n m1 closestUpTo_next [OF Suc.prems(2) d]])
qed


text \<open>
  C2: for a polyline of N samples, N at least 2, in a state whose roll and track
  position are numbers, \<open>getClosestPointOnCurve\<close> returns the index, the transformed
  point and the distance of a sample k whose distance to the car position is at most the
  distance of every sample, and strictly less than the distance of every sample before
  k: the first sample of least distance.
\<close>

theorem getClosestPointOnCurve_nearest:
  assumes "snd (snd (rotation s)) = Num rr" "trackPosition s = (Num tx, Num ty, Num tz)"
    and "length (curve_verts s) = 3 * N" "2 \<le> N"
  shows "\<exists>k<N. index (getClosestPointOnCurve s) = 3 * int k \<and>
           vertex (getClosestPointOnCurve s) = worldSample s k \<and>
           distance (getClosestPointOnCurve s) = vec3_distance carPosition (worldSample s k) \<and>
           (\<forall>m<N. distance (getClosestPointOnCurve s)
                     \<le> vec3_distance carPosition (worldSample s m)) \<and>
           (\<forall>m<k. distance (getClosestPointOnCurve s)
                     < vec3_distance carPosition (worldSample s m))"
proof -
  have len: "int (length (curve_verts s)) = 3 * int N" using assms(3) by simp
  define f where "f q = dnum (sampleDistance s q)" for q
  have f: "\<forall>q<N. sampleDistance s q = Num (f q)"
  proof (intro allI impI)
    fix q assume "q < N"
    then obtain d where "sampleDistance s q = Num d"
      using sampleDistance_inside [OF assms(1,2) len] by blast
    then show "sampleDistance s q = Num (f q)" by (simp add: f_def dnum_def)
  qed
  let ?sd0 = "\<lparr>vertex = worldSample s 0, distance = sampleDistance s 0, index = 0\<rparr>"
  have start: "getClosestPointOnCurve s = closestLoop s (3 * int 0 + 3) (3 * int 0) ?sd0"
    by (simp add: getClosestPointOnCurve_def Let_def worldSample_def sampleDistance_def)
  have "closestUpTo s f 0 ?sd0"
    unfolding closestUpTo_def using f assms(4) by simp
  then have "closestUpTo s f (N - 1) (getClosestPointOnCurve s)"
    unfolding start using assms(4) by (intro closestLoop_invariant [OF f len]) simp_all
  then obtain k where k: "k \<le> N - 1" "index (getClosestPointOnCurve s) = 3 * int k"
      "vertex (getClosestPointOnCurve s) = worldSample s k"
      "distance (getClosestPointOnCurve s) = Num (f k)"
      "\<forall>q\<le>N - 1. f k \<le> f q" "\<forall>q<k. f k < f q"
    unfolding closestUpTo_def by blast
  have kN: "k < N" using k(1) assms(4) by simp
  have fk: "sampleDistance s k = Num (f k)" using f kN by blast
  have a: "\<forall>m<N. distance (getClosestPointOnCurve s) \<le> sampleDistance s m"
  proof (intro allI impI)
    fix m assume m: "m < N"
    then have "f k \<le> f m" using k(5) by simp
    then show "distance (getClosestPointOnCurve s) \<le> sampleDistance s m"
      using f m k(4) by simp
  qed
  have b: "\<forall>m<k. distance (getClosestPointOnCurve s) < sampleDistance s m"
  proof (intro allI impI)
    fix m assume m: "m < k"
    then have "f k < f m" using k(6) by simp
    then show "distance (getClosestPointOnCurve s) < sampleDistance s m"
      using f m kN k(4) by simp
  qed
  show ?thesis
    using kN k(2,3,4) fk a b unfolding sampleDistance_def
    by (intro exI [of _ k]) simp
qed

lemma initialState_pole_facts:
  "snd (snd (rotation (initialState poleTrack demoBox))) = Num 0"
  "trackPosition (initialState poleTrack demoBox) = (Num 0, Num (- 0.15), Num (- 0.25))"
  "length (curve_verts (initialState poleTrack demoBox)) = 3 * 2"
  by (simp_all add: initialState_def poleTrack_def)

theorem getClosestPointOnCurve_nearest_witness:
  "snd (snd (rotation (initialState poleTrack demoBox))) = Num 0 \<and>
   trackPosition (initialState poleTrack demoBox) = (Num 0, Num (- 0.15), Num (- 0.25)) \<and>
   length (curve_verts (initialState poleTrack demoBox)) = 3 * 2 \<and> (2::nat) \<le> 2 \<and>
   (\<exists>k<2. index (getClosestPointOnCurve (initialState poleTrack demoBox)) = 3 * int k \<and>
      vertex (getClosestPointOnCurve (initialState poleTrack demoBox))
        = worldSample (initialState poleTrack demoBox) k \<and>
      distance (getClosestPointOnCurve (initialState poleTrack demoBox))
        = vec3_distance carPosition (worldSample (initialState poleTrack demoBox) k) \<and>
      (\<forall>m<2. distance (getClosestPointOnCurve (initialState poleTrack demoBox))
                \<le> vec3_distance carPosition (worldSample (initialState poleTrack demoBox) m)) \<and>
      (\<forall>m<k. distance (getClosestPointOnCurve (initialState poleTrack demoBox))
                < vec3_distance carPosition (worldSample (initialState poleTrack demoBox) m)))"
  using getClosestPointOnCurve_nearest [OF initialState_pole_facts order_refl]
    initialState_pole_facts
  by simp

text \<open>
  C10 fails on the code: for the polyline of two samples (six coordinates) the search
  calls \<open>getCurvePoint\<close> at 0, 3 and 6, and the last call reads beyond the array. The
  loop tests the index of the point read last, so it reads one point more than there are.
\<close>

theorem getClosestPointOnCurve_reads_past_end:
  "length (curve_verts (initialState poleTrack demoBox)) = 6 \<and>
   getClosestPointOnCurve_calls (initialState poleTrack demoBox) = [0, 3, 6]"
proof -
  let ?s = "initialState poleTrack demoBox"
  have len: "int (length (curve_verts ?s)) = 6"
    by (simp add: initialState_def poleTrack_def)
  have c3: "closestLoop_calls ?s 9 6 = []"
    using len by (subst closestLoop_calls.simps) simp
  have c2: "closestLoop_calls ?s 6 3 = [6]"
    using len c3 by (subst closestLoop_calls.simps) simp
  have c1: "closestLoop_calls ?s 3 0 = [3, 6]"
    using len c2 by (subst closestLoop_calls.simps) simp
  show ?thesis
    using len c1 by (simp add: getClosestPointOnCurve_calls_def)
qed

section \<open>The frame update, field by field\<close>

lemma crash_fields:
  "hasWon (crash s) = hasWon s"
  "hasReachedCheckpoint (crash s) = hasReachedCheckpoint s"
  "isPaused (crash s) = isPaused s"
  "hasStarted (crash s) = hasStarted s"
  "rotation (crash s) = rotation s"
  "trackPosition (crash s) = trackPosition s"
  "gameStartTime (crash s) = gameStartTime s"
  "hasCrashed (crash s)"
  "\<not> keydownRegistered (crash s)"
  "pressed (controls (crash s) Backward)"
  "val (controls (crash s) Backward) = maxReverse"
  by (simp_all add: crash_def setValue_def setPressed_def)

lemma collide_state:
  "snd (collide s p dv tld trd) =
     (if collideFires s p tld trd then crash s else s)
       \<lparr>previousXRotation := fst (rotation s), previousYRotation := fst (snd (rotation s))\<rparr>"
  by (simp add: collide_def collideFires_def Let_def crash_fields)

lemma followTrack_state:
  "fst (followTrack s dv) = s\<lparr>rotation := (fst (rotation (fst (followTrack s dv))), snd (rotation s))\<rparr>"
  by (simp add: followTrack_def Let_def)

lemma stayOnTrack_state:
  "snd (stayOnTrack s dv) =
     (case followTrack s dv of (s1, p, dv1, tld, trd) \<Rightarrow>
        (if collideFires s1 p tld trd then crash s1 else s1)
          \<lparr>previousXRotation := fst (rotation s1), previousYRotation := fst (snd (rotation s1))\<rparr>)"
  by (simp add: stayOnTrack_def collide_state split: prod.splits)

lemma followTrack_fields:
  "hasWon (fst (followTrack s dv)) = hasWon s"
  "hasReachedCheckpoint (fst (followTrack s dv)) = hasReachedCheckpoint s"
  "isPaused (fst (followTrack s dv)) = isPaused s"
  "hasStarted (fst (followTrack s dv)) = hasStarted s"
  "hasCrashed (fst (followTrack s dv)) = hasCrashed s"
  "controls (fst (followTrack s dv)) = controls s"
  "keydownRegistered (fst (followTrack s dv)) = keydownRegistered s"
  "gameStartTime (fst (followTrack s dv)) = gameStartTime s"
  "snd (rotation (fst (followTrack s dv))) = snd (rotation s)"
  "trackPosition (fst (followTrack s dv)) = trackPosition s"
  by (subst followTrack_state, simp)+

lemma stayOnTrack_fields:
  "hasWon (snd (stayOnTrack s dv)) = hasWon s"
  "hasReachedCheckpoint (snd (stayOnTrack s dv)) = hasReachedCheckpoint s"
  "isPaused (snd (stayOnTrack s dv)) = isPaused s"
  "hasStarted (snd (stayOnTrack s dv)) = hasStarted s"
  "gameStartTime (snd (stayOnTrack s dv)) = gameStartTime s"
  "snd (rotation (snd (stayOnTrack s dv))) = snd (rotation s)"
  "trackPosition (snd (stayOnTrack s dv)) = trackPosition s"
  using followTrack_fields [of s dv]
  by (auto simp: stayOnTrack_state crash_fields split: prod.splits)

lemma accelerate_fields:
  "hasWon (accelerate s) = hasWon s"
  "hasReachedCheckpoint (accelerate s) = hasReachedCheckpoint s"
  "gameStartTime (accelerate s) = gameStartTime s"
  "rotation (accelerate s) = rotation s"
  "trackPosition (accelerate s) = trackPosition s"
  "keydownRegistered (accelerate s) = keydownRegistered s"
  by (simp_all add: accelerate_def Let_def setValue_def)

lemma driveByControls_fields:
  "hasWon (snd (driveByControls s)) = hasWon s"
  "hasReachedCheckpoint (snd (driveByControls s)) = hasReachedCheckpoint s"
  "isPaused (snd (driveByControls s)) = isPaused s"
  "hasStarted (snd (driveByControls s)) = hasStarted s"
  "gameStartTime (snd (driveByControls s)) = gameStartTime s"
  "trackPosition (snd (driveByControls s)) = trackPosition s"
  by (simp_all add: driveByControls_def Let_def)

lemma recoverFromCrash_fields:
  "hasWon (snd (recoverFromCrash s)) = hasWon s"
  "hasReachedCheckpoint (snd (recoverFromCrash s)) = hasReachedCheckpoint s"
  "isPaused (snd (recoverFromCrash s)) = isPaused s"
  "hasStarted (snd (recoverFromCrash s)) = hasStarted s"
  "gameStartTime (snd (recoverFromCrash s)) = gameStartTime s"
  "rotation (snd (recoverFromCrash s)) = rotation s"
  "trackPosition (snd (recoverFromCrash s)) = trackPosition s"
  by (simp_all add: recoverFromCrash_def Let_def setPressed_def)

text \<open>The distance the two progress checks compare with their thresholds.\<close>

lemma checkReached_fields:
  "hasReachedCheckpoint (checkReachedCheckpoint s) =
     (hasReachedCheckpoint s \<or> vec3_distance vec3_create (trackPosition s) > Num 3.5)"
  "hasWon (checkReachedCheckpoint s) = hasWon s"
  "hasWon (checkReachedFinish s) =
     (hasWon s \<or> vec3_distance vec3_create (trackPosition s) < Num 0.3)"
  "hasReachedCheckpoint (checkReachedFinish s) = hasReachedCheckpoint s"
  by (simp_all add: checkReachedCheckpoint_def checkReachedFinish_def)

lemma controlStep_flags:
  "hasReachedCheckpoint (snd (controlStep s)) =
     (hasReachedCheckpoint s \<or> vec3_distance vec3_create (trackPosition s) > Num 3.5)"
  "hasWon (snd (controlStep s)) =
     (hasWon s \<or> (hasReachedCheckpoint s \<and> vec3_distance vec3_create (trackPosition s) < Num 0.3))"
  by (simp_all add: controlStep_def Let_def accelerate_fields accelerate_keeps
      driveByControls_fields recoverFromCrash_fields checkReached_fields)

lemma updatePosition_flags:
  "hasReachedCheckpoint (updatePosition s) =
     (hasReachedCheckpoint s \<or> vec3_distance vec3_create (trackPosition s) > Num 3.5)"
  "hasWon (updatePosition s) =
     (hasWon s \<or> (hasReachedCheckpoint s \<and> vec3_distance vec3_create (trackPosition s) < Num 0.3))"
proof -
  obtain dv s3 where c: "controlStep s = (dv, s3)" by (cases "controlStep s")
  obtain v s4 where t: "stayOnTrack s3 dv = (v, s4)" by (cases "stayOnTrack s3 dv")
  have s4: "hasReachedCheckpoint s4 = hasReachedCheckpoint s3" "hasWon s4 = hasWon s3"
    using stayOnTrack_fields(1,2) [of s3 dv] t by simp_all
  have s3: "hasReachedCheckpoint s3 =
     (hasReachedCheckpoint s \<or> vec3_distance vec3_create (trackPosition s) > Num 3.5)"
    "hasWon s3 =
     (hasWon s \<or> (hasReachedCheckpoint s \<and> vec3_distance vec3_create (trackPosition s) < Num 0.3))"
    using controlStep_flags [of s] c by simp_all
  show "hasReachedCheckpoint (updatePosition s) =
     (hasReachedCheckpoint s \<or> vec3_distance vec3_create (trackPosition s) > Num 3.5)"
    using s4 s3 by (simp add: updatePosition_def c t)
  show "hasWon (updatePosition s) =
     (hasWon s \<or> (hasReachedCheckpoint s \<and> vec3_distance vec3_create (trackPosition s) < Num 0.3))"
    using s4 s3 by (simp add: updatePosition_def c t)
qed

lemma render_flags:
  "hasReachedCheckpoint (render t s) = hasReachedCheckpoint (updatePosition s)"
  "hasWon (render t s) = hasWon (updatePosition s)"
  by (simp_all add: render_def updateTimer_def calculateElapsedTime_def Let_def)

lemma setPressed_fields:
  "hasWon (setPressed d b s) = hasWon s"
  "hasReachedCheckpoint (setPressed d b s) = hasReachedCheckpoint s"
  by (simp_all add: setPressed_def)

lemma onKeyDown_flags:
  "hasWon (onKeyDown t k s) = hasWon s"
  "hasReachedCheckpoint (onKeyDown t k s) = hasReachedCheckpoint s"
  by (simp_all add: onKeyDown_def Let_def setPressed_fields split: key.splits option.splits)

lemma initializeGame_flags:
  "hasWon s \<Longrightarrow> hasWon (initializeGame t s)"
  "hasReachedCheckpoint s \<Longrightarrow> hasReachedCheckpoint (initializeGame t s)"
  by (simp_all add: initializeGame_def render_flags updatePosition_flags startPlaying_def
      setControls_def)

lemma onKeyUp_flags:
  "hasWon s \<Longrightarrow> hasWon (onKeyUp t k s)"
  "hasReachedCheckpoint s \<Longrightarrow> hasReachedCheckpoint (onKeyUp t k s)"
  by (simp_all add: onKeyUp_def Let_def setPressed_fields initializeGame_flags modeSelect_def
      helpMenu_def exitHelpMenu_def pause_def split: key.splits option.splits)

text \<open>
  C5, as amended: no step of the session (a key-down, a key-up or a frame) resets
  \<open>hasWon\<close> or \<open>hasReachedCheckpoint\<close> from true to false. \<open>hasCrashed\<close> is not
  one-way: the frame that ends a crash recovery resets it.
\<close>

theorem progress_flags_monotonic:
  "(hasWon s \<longrightarrow> hasWon (step t e s)) \<and>
   (hasReachedCheckpoint s \<longrightarrow> hasReachedCheckpoint (step t e s))"
  by (cases e)
     (simp_all add: step_def onKeyDown_flags onKeyUp_flags render_flags updatePosition_flags)


section \<open>The pole track\<close>

lemma pole_getCurvePoint:
  assumes "onPole s x y z"
  shows "getCurvePoint s 0 = ((Num x, Num y, Num (z - 0.155)), 0)"
    and "getCurvePoint s 3 = ((Num x, Num (y + 1), Num (z - 0.155)), 3)"
    and "getCurvePoint s 6 = ((NaN, NaN, NaN), 6)"
    and "getCurvePoint s (- 3) = ((NaN, NaN, NaN), - 3)"
  using assms
  by (simp_all add: onPole_def getCurvePoint_def poleTrack_def subarray_def rd_def deg2rad_def
      vec3_create_def carPosition_def Let_def)

lemma pole_closest:
  assumes "onPole s x y z"
  shows "getClosestPointOnCurve s =
     \<lparr>vertex = (Num x, Num y, Num (z - 0.155)),
      distance = vec3_distance carPosition (Num x, Num y, Num (z - 0.155)),
      index = 0\<rparr>"
proof -
  let ?A = "(Num x, Num y, Num (z - 0.155))"
  let ?sd = "\<lparr>vertex = ?A, distance = vec3_distance carPosition ?A, index = 0\<rparr>"
  have len: "int (length (curve_verts s)) = 6"
    using assms by (simp add: onPole_def poleTrack_def)
  have y: "- 0.58 \<le> y" using assms by (simp add: onPole_def)
  have "(y + 0.08) * (y + 0.08) \<le> (y + 1.08) * (y + 1.08)"
    using y by (simp add: algebra_simps)
  then have "(x - 0.01) * (x - 0.01) + (y + 0.08) * (y + 0.08) + z * z
        \<le> (x - 0.01) * (x - 0.01) + (y + 1.08) * (y + 1.08) + z * z"
    by simp
  then have le: "sqrt ((x - 0.01) * (x - 0.01) + (y + 0.08) * (y + 0.08) + z * z)
        \<le> sqrt ((x - 0.01) * (x - 0.01) + (y + 1.08) * (y + 1.08) + z * z)"
    by (rule real_sqrt_le_mono)
  have dA: "vec3_distance carPosition ?A
      = Num (sqrt ((x - 0.01) * (x - 0.01) + (y + 0.08) * (y + 0.08) + z * z))"
    unfolding carPosition_def vec3_distance_Num by simp
  have dB: "vec3_distance carPosition (Num x, Num (y + 1), Num (z - 0.155))
      = Num (sqrt ((x - 0.01) * (x - 0.01) + (y + 1.08) * (y + 1.08) + z * z))"
    unfolding carPosition_def vec3_distance_Num by (simp add: algebra_simps)
  have nolt: "\<not> vec3_distance carPosition (Num x, Num (y + 1), Num (z - 0.155))
        < vec3_distance carPosition ?A"
    unfolding dA dB using le by simp
  have c3: "closestLoop s 9 6 ?sd = ?sd"
    using len by (subst closestLoop.simps) simp
  have c2: "closestLoop s 6 3 ?sd = ?sd"
    using len c3 by (subst closestLoop.simps)
      (simp add: pole_getCurvePoint [OF assms] Let_def carPosition_def)
  have c1: "closestLoop s 3 0 ?sd = ?sd"
    using len c2 nolt by (subst closestLoop.simps)
      (simp add: pole_getCurvePoint [OF assms] Let_def)
  show ?thesis
    using c1 by (simp add: getClosestPointOnCurve_def pole_getCurvePoint [OF assms] Let_def)
qed


lemma vec3_angle_parallel:
  assumes "0 < h" "0 < w"
  shows "vec3_angle (Num 0, Num h, Num 0) (Num 0, Num w, Num 0) = Num 0"
proof -
  have m: "sqrt (h * h * (w * w)) = h * w"
  proof -
    have "h * h * (w * w) = (h * w) * (h * w)" by (simp add: algebra_simps)
    then have "sqrt (h * h * (w * w)) = \<bar>h * w\<bar>" by (simp only: real_sqrt_abs2)
    then show ?thesis using assms by simp
  qed
  have nn: "\<not> h * h * (w * w) < 0" using assms by (simp add: not_less)
  have pos: "h * w \<noteq> 0" using assms by simp
  show ?thesis using assms nn pos by (simp add: Let_def m)
qed

lemma carPosition_y: "fst (snd carPosition) = Num (- 0.08)"
  by (simp add: carPosition_def)

lemma pole_projection:
  "getClosestCurvePointOnTrack (Num x, Num (y + 1), Num z') (Num x, Num y, Num z') carPosition
     = (Num x, Num (- 0.08), Num z')"
  by (simp add: getClosestCurvePointOnTrack_def carPosition_def Let_def)

lemma pole_followTrack:
  assumes "onPole s x y z"
  shows "followTrack s (d0, d1, d2) =
     (let s1 = s\<lparr>rotation := (Num (- 90), snd (rotation s))\<rparr>;
          point = (Num x, Num (- 0.08), Num (z - 0.155));
          point1 = vec3_rotateX point vec3_create (- deg2rad (Num (- 90) - previousXRotation s));
          point2 = vec3_rotateY point1 vec3_create
                     (- deg2rad (fst (snd (rotation s)) - previousYRotation s));
          cb = carBox s
      in (s1, point2, (d0, d1 + Num 0, d2),
          vec3_distance (Num (minX cb), Num (- 0.08), Num (minZ cb)) point2,
          vec3_distance (Num (maxX cb), Num (- 0.08), Num (minZ cb)) point2))"
proof -
  have len: "length (curve_verts s) = 6"
    using assms by (simp add: onPole_def poleTrack_def)
  have y: "- 0.58 \<le> y" using assms by (simp add: onPole_def)
  note g = pole_getCurvePoint [OF assms]
  have pr: "getClosestCurvePointOnTrack (Num x, Num (y + 1), Num (z - 0.155))
              (Num x, Num y, Num (z - 0.155)) carPosition
            = (Num x, Num (- 0.08), Num (z - 0.155))"
    by (rule pole_projection)
  have ang: "\<And>w. 0 < w \<Longrightarrow> vec3_angle (Num 0, Num (1 / 10), Num 0) (Num 0, Num w, Num 0) = Num 0"
    by (intro vec3_angle_parallel) simp_all
  have pitch: "rad2deg (Num 0) = Num 0"
    by (simp add: rad2deg_def)
  show ?thesis
    using pr pitch y
    by (simp add: followTrack_def pole_closest [OF assms] g len ang
        determinePointByDistance_before carPosition_y Let_def del: vec3_angle.simps)
qed

section \<open>Crash recovery\<close>

lemma updatePosition_quiet:
  assumes "\<not> frameCollides s"
  shows "controls (updatePosition s) = controls (snd (controlStep s))"
    and "hasCrashed (updatePosition s) = hasCrashed (snd (controlStep s))"
    and "keydownRegistered (updatePosition s) = keydownRegistered (snd (controlStep s))"
    and "isPaused (updatePosition s) = isPaused (snd (controlStep s))"
proof -
  obtain dv s3 where c: "controlStep s = (dv, s3)" by (cases "controlStep s")
  obtain s1 p dv1 tld trd where f: "followTrack s3 dv = (s1, p, dv1, tld, trd)"
    by (cases "followTrack s3 dv")
  have nf: "\<not> collideFires s1 p tld trd"
    using assms by (simp add: frameCollides_def c f)
  have s1: "controls s1 = controls s3" "hasCrashed s1 = hasCrashed s3"
    "keydownRegistered s1 = keydownRegistered s3" "isPaused s1 = isPaused s3"
    using followTrack_fields [of s3 dv] f by simp_all
  have u: "updatePosition s =
      (snd (collide s1 p dv1 tld trd))
        \<lparr>trackPosition := vec3_add (trackPosition (snd (collide s1 p dv1 tld trd)))
                            (fst (collide s1 p dv1 tld trd))\<rparr>"
    by (simp add: updatePosition_def stayOnTrack_def c f split: prod.splits)
  show "controls (updatePosition s) = controls (snd (controlStep s))"
    and "hasCrashed (updatePosition s) = hasCrashed (snd (controlStep s))"
    and "keydownRegistered (updatePosition s) = keydownRegistered (snd (controlStep s))"
    and "isPaused (updatePosition s) = isPaused (snd (controlStep s))"
    unfolding u using nf s1 by (simp_all add: collide_state c)
qed

lemma check_fields:
  "controls (checkReachedCheckpoint s) = controls s"
  "isPaused (checkReachedCheckpoint s) = isPaused s"
  "hasCrashed (checkReachedCheckpoint s) = hasCrashed s"
  "keydownRegistered (checkReachedCheckpoint s) = keydownRegistered s"
  "controls (checkReachedFinish s) = controls s"
  "isPaused (checkReachedFinish s) = isPaused s"
  "hasCrashed (checkReachedFinish s) = hasCrashed s"
  "keydownRegistered (checkReachedFinish s) \<Longrightarrow> keydownRegistered s"
  by (simp_all add: checkReachedCheckpoint_def checkReachedFinish_def split: if_splits)

lemma accelerate_controls_cong:
  assumes "controls s = controls s'" "isPaused s = isPaused s'" "hasCrashed s = hasCrashed s'"
  shows "controls (accelerate s) = controls (accelerate s')"
  using assms by (simp add: accelerate_def Let_def setValue_def)

lemma recoverFromCrash_state:
  "snd (recoverFromCrash s) =
     (if val (controls s Backward) = 0
      then (setPressed Backward False (s\<lparr>hasCrashed := False\<rparr>))\<lparr>keydownRegistered := True\<rparr>
      else s)"
  by (simp add: recoverFromCrash_def Let_def)

lemma controlStep_recovering:
  assumes "hasCrashed s" "\<not> isPaused s"
  shows "controls (snd (controlStep s)) =
           (if val (controls (accelerate s) Backward) = 0
            then (controls (accelerate s))
                   (Backward := (controls (accelerate s) Backward)\<lparr>pressed := False\<rparr>)
            else controls (accelerate s))"
    and "hasCrashed (snd (controlStep s)) = (val (controls (accelerate s) Backward) \<noteq> 0)"
    and "val (controls (accelerate s) Backward) = 0 \<Longrightarrow> keydownRegistered (snd (controlStep s))"
    and "val (controls (accelerate s) Backward) \<noteq> 0 \<Longrightarrow> \<not> keydownRegistered s \<Longrightarrow>
           \<not> keydownRegistered (snd (controlStep s))"
    and "isPaused (snd (controlStep s)) = isPaused s"
proof -
  define s1 where "s1 = (if \<not> hasReachedCheckpoint s then checkReachedCheckpoint s
                         else checkReachedFinish s)"
  define s2 where "s2 = accelerate s1"
  have f1: "controls s1 = controls s" "isPaused s1 = isPaused s" "hasCrashed s1 = hasCrashed s"
    by (simp_all add: s1_def check_fields)
  have k1: "keydownRegistered s1 \<Longrightarrow> keydownRegistered s"
    by (cases "hasReachedCheckpoint s") (simp_all add: s1_def check_fields)
  have c2: "controls s2 = controls (accelerate s)"
    unfolding s2_def by (rule accelerate_controls_cong) (simp_all add: f1)
  have f2: "isPaused s2 = isPaused s" "hasCrashed s2 = hasCrashed s"
    "keydownRegistered s2 = keydownRegistered s1"
    by (simp_all add: s2_def accelerate_keeps accelerate_fields f1)
  have cs: "snd (controlStep s) = snd (recoverFromCrash s2)"
    using assms f2 by (simp add: controlStep_def Let_def s1_def [symmetric] s2_def [symmetric])
  show "controls (snd (controlStep s)) =
           (if val (controls (accelerate s) Backward) = 0
            then (controls (accelerate s))
                   (Backward := (controls (accelerate s) Backward)\<lparr>pressed := False\<rparr>)
            else controls (accelerate s))"
    by (simp add: cs recoverFromCrash_state setPressed_def c2)
  show "hasCrashed (snd (controlStep s)) = (val (controls (accelerate s) Backward) \<noteq> 0)"
    using assms by (simp add: cs recoverFromCrash_state setPressed_def c2 f2)
  show "val (controls (accelerate s) Backward) = 0 \<Longrightarrow> keydownRegistered (snd (controlStep s))"
    by (simp add: cs recoverFromCrash_state setPressed_def c2)
  show "val (controls (accelerate s) Backward) \<noteq> 0 \<Longrightarrow> \<not> keydownRegistered s \<Longrightarrow>
           \<not> keydownRegistered (snd (controlStep s))"
    using k1 by (auto simp: cs recoverFromCrash_state c2 f2)
  show "isPaused (snd (controlStep s)) = isPaused s"
    by (simp add: cs recoverFromCrash_state setPressed_def f2)
qed

lemma accelerate_backward:
  "val (controls (accelerate s) Backward) =
     (let v = val (controls s Backward)
      in if isPaused s then v
         else if pressed (controls s Backward)
         then (if hasCrashed s then round_val v (- reverseFactor * 5)
               else if v > maxReverse then round_val v reverseFactor else v)
         else (if v < 0 then round_val v (- reverseFactor) else v))"
  by (simp add: accelerate_def Let_def setValue_def)

lemma accelerate_backward_crashed:
  assumes "\<not> isPaused s" "pressed (controls s Backward)" "hasCrashed s"
    and "val (controls s Backward) = of_int m / 1000000"
  shows "val (controls (accelerate s) Backward) = of_int (m + 25) / 1000000"
proof -
  have rf: "- reverseFactor * 5 = of_int 25 / 1000000" by (simp add: reverseFactor_def)
  have "round_val (of_int m / 1000000) (- reverseFactor * 5) = of_int (m + 25) / 1000000"
    unfolding rf by (rule round_val_step)
  then show ?thesis
    unfolding accelerate_backward Let_def assms(4) using assms(1,2,3) by simp
qed

lemma recovery_frame:
  assumes "hasCrashed s" "pressed (controls s Backward)" "\<not> isPaused s"
    and "\<not> frameCollides s" "val (controls s Backward) = of_int m / 1000000"
  shows "val (controls (updatePosition s) Backward) = of_int (m + 25) / 1000000"
    and "hasCrashed (updatePosition s) = (m + 25 \<noteq> 0)"
    and "pressed (controls (updatePosition s) Backward) = (m + 25 \<noteq> 0)"
    and "\<not> isPaused (updatePosition s)"
    and "m + 25 = 0 \<Longrightarrow> keydownRegistered (updatePosition s)"
    and "m + 25 \<noteq> 0 \<Longrightarrow> \<not> keydownRegistered s \<Longrightarrow> \<not> keydownRegistered (updatePosition s)"
proof -
  note a = accelerate_backward_crashed [OF assms(3,2,1,5)]
  note q = updatePosition_quiet [OF assms(4)]
  note c = controlStep_recovering [OF assms(1,3)]
  have z: "(val (controls (accelerate s) Backward) = 0) = (m + 25 = 0)"
  proof -
    have "(real_of_int (m + 25) / 1000000 = 0) = (real_of_int (m + 25) = 0)"
      by (simp del: of_int_add)
    also have "\<dots> = (m + 25 = 0)" by (rule of_int_eq_0_iff)
    finally show ?thesis unfolding a .
  qed
  have p: "pressed (controls (accelerate s) Backward)"
    using assms(2) by (simp add: accelerate_keeps)
  have cb: "controls (updatePosition s) Backward =
      (if m + 25 = 0 then (controls (accelerate s) Backward)\<lparr>pressed := False\<rparr>
       else controls (accelerate s) Backward)"
    unfolding q(1) c(1) by (simp add: z)
  show "val (controls (updatePosition s) Backward) = of_int (m + 25) / 1000000"
    unfolding cb by (simp add: a del: of_int_add)
  show "hasCrashed (updatePosition s) = (m + 25 \<noteq> 0)"
    by (simp only: q(2) c(2) z)
  show "pressed (controls (updatePosition s) Backward) = (m + 25 \<noteq> 0)"
    unfolding cb using p by simp
  show "\<not> isPaused (updatePosition s)"
    using assms(3) by (simp add: q(4) c(5))
  show "m + 25 = 0 \<Longrightarrow> keydownRegistered (updatePosition s)"
    unfolding q(3) using c(3) z by blast
  show "m + 25 \<noteq> 0 \<Longrightarrow> \<not> keydownRegistered s \<Longrightarrow> \<not> keydownRegistered (updatePosition s)"
    unfolding q(3) using c(4) z by blast
qed

lemma recoveringAt_step:
  assumes r: "recoveringAt k s" and k: "k < 80" and q: "\<not> frameCollides s"
  shows "recoveringAt (Suc k) (updatePosition s)"
proof -
  have h: "hasCrashed s" "pressed (controls s Backward)" "\<not> isPaused s"
    "\<not> keydownRegistered s"
    "val (controls s Backward) = of_int (25 * int k - 2000) / 1000000"
    using r k by (simp_all add: recoveringAt_def)
  note f = recovery_frame [OF h(1,2,3) q h(5)]
  have e: "25 * int k - 2000 + 25 = 25 * int (Suc k) - 2000" by simp
  show ?thesis
  proof (cases "Suc k < 80")
    case True
    then have nz: "25 * int k - 2000 + 25 \<noteq> 0" by presburger
    have "hasCrashed (updatePosition s)" "pressed (controls (updatePosition s) Backward)"
      "\<not> keydownRegistered (updatePosition s)"
      using f(2,3) f(6) [OF nz h(4)] nz by simp_all
    then show ?thesis
      unfolding recoveringAt_def using True f(1,4) by (simp only: e if_True simp_thms)
  next
    case False
    then have ze: "25 * int k - 2000 + 25 = 0" using k by presburger
    have "\<not> hasCrashed (updatePosition s)" "\<not> pressed (controls (updatePosition s) Backward)"
      "keydownRegistered (updatePosition s)"
      using f(2,3) f(5) [OF ze] ze by simp_all
    then show ?thesis
      unfolding recoveringAt_def using False f(1,4) by (simp only: e if_False simp_thms)
  qed
qed

lemma recoveringAt_frames:
  assumes s: "hasCrashed s" "pressed (controls s Backward)"
      "val (controls s Backward) = maxReverse" "\<not> keydownRegistered s" "\<not> isPaused s"
    and quiet: "\<forall>k<80. \<not> frameCollides ((updatePosition ^^ k) s)"
  shows "k \<le> 80 \<Longrightarrow> recoveringAt k ((updatePosition ^^ k) s)"
proof (induction k)
  case 0
  then show ?case using s by (simp add: recoveringAt_def maxReverse_def)
next
  case (Suc k)
  have k: "k < 80" using Suc.prems by simp
  have r: "recoveringAt k ((updatePosition ^^ k) s)" using Suc by simp
  have q: "\<not> frameCollides ((updatePosition ^^ k) s)" using quiet k by blast
  have "recoveringAt (Suc k) (updatePosition ((updatePosition ^^ k) s))"
    by (rule recoveringAt_step [OF r k q])
  then show ?case by simp
qed

lemma recoveringAt_value:
  "recoveringAt k s \<Longrightarrow> val (controls s Backward) = maxReverse + real k * 0.000025"
  by (simp add: recoveringAt_def maxReverse_def field_simps)

section \<open>Distances and thresholds\<close>

lemma near_origin:
  assumes "x * x + y * y + z * z \<le> 12.25"
  shows "\<not> Num 3.5 < vec3_distance vec3_create (Num x, Num y, Num z)"
proof -
  have "sqrt (x * x + y * y + z * z) \<le> 3.5"
    using assms by (intro real_le_lsqrt) (simp_all add: power2_eq_square)
  then show ?thesis
    unfolding vec3_create_def vec3_distance_Num by simp
qed

lemma distance_gt:
  assumes "0 \<le> t" "t * t < (b0 - a0) * (b0 - a0) + (b1 - a1) * (b1 - a1) + (b2 - a2) * (b2 - a2)"
  shows "Num t < vec3_distance (Num a0, Num a1, Num a2) (Num b0, Num b1, Num b2)"
proof -
  have "t < sqrt ((b0 - a0) * (b0 - a0) + (b1 - a1) * (b1 - a1) + (b2 - a2) * (b2 - a2))"
    using assms by (intro real_less_rsqrt) (simp add: power2_eq_square)
  then show ?thesis unfolding vec3_distance_Num by simp
qed

lemma distance_le:
  assumes "0 \<le> t" "(b0 - a0) * (b0 - a0) + (b1 - a1) * (b1 - a1) + (b2 - a2) * (b2 - a2) \<le> t * t"
  shows "\<not> Num t < vec3_distance (Num a0, Num a1, Num a2) (Num b0, Num b1, Num b2)"
proof -
  have "sqrt ((b0 - a0) * (b0 - a0) + (b1 - a1) * (b1 - a1) + (b2 - a2) * (b2 - a2)) \<le> t"
    using assms by (intro real_le_lsqrt) (simp_all add: power2_eq_square add_nonneg_nonneg)
  then show ?thesis unfolding vec3_distance_Num by simp
qed

lemma distance_lt:
  assumes "(b0 - a0) * (b0 - a0) + (b1 - a1) * (b1 - a1) + (b2 - a2) * (b2 - a2) < t * t" "0 \<le> t"
  shows "vec3_distance (Num a0, Num a1, Num a2) (Num b0, Num b1, Num b2) < Num t"
proof -
  have "sqrt ((b0 - a0) * (b0 - a0) + (b1 - a1) * (b1 - a1) + (b2 - a2) * (b2 - a2)) < t"
    using assms by (intro real_less_lsqrt) (simp_all add: power2_eq_square add_nonneg_nonneg)
  then show ?thesis unfolding vec3_distance_Num by simp
qed

lemma distance_ge:
  assumes "0 \<le> t" "t * t \<le> (b0 - a0) * (b0 - a0) + (b1 - a1) * (b1 - a1) + (b2 - a2) * (b2 - a2)"
  shows "\<not> vec3_distance (Num a0, Num a1, Num a2) (Num b0, Num b1, Num b2) < Num t"
proof -
  have "t \<le> sqrt ((b0 - a0) * (b0 - a0) + (b1 - a1) * (b1 - a1) + (b2 - a2) * (b2 - a2))"
    using assms by (intro real_le_rsqrt) (simp add: power2_eq_square)
  then show ?thesis unfolding vec3_distance_Num by simp
qed

lemma vec3_distance_same:
  "vec3_distance (Num a, Num b, Num c) (Num a, Num b, Num c) = Num 0"
  by (simp add: Let_def)

section \<open>The first frame on the pole track\<close>

lemma atStart_fields:
  "curve_verts (atStart cb) = poleTrack"
  "rotation (atStart cb) = (Num 0, Num 0, Num 0)"
  "previousXRotation (atStart cb) = Num 0"
  "previousYRotation (atStart cb) = Num 0"
  "trackPosition (atStart cb) = (Num 0, Num (- 0.15), Num (- 0.25))"
  "carBox (atStart cb) = cb"
  "\<not> hasCrashed (atStart cb)" "\<not> isPaused (atStart cb)" "\<not> hasReachedCheckpoint (atStart cb)"
  "hasStarted (atStart cb)" "\<not> atTitleScreen (atStart cb)" "gameStartTime (atStart cb) = None"
  "\<And>d. \<not> pressed (controls (atStart cb) d)"
  "val (controls (atStart cb) Forward) = 0" "val (controls (atStart cb) Backward) = 0"
  by (simp_all add: atStart_def startPlaying_def setControls_def modeSelect_def
      initialState_def split: dir.splits)

lemma atStart_controlStep:
  "fst (controlStep (atStart cb)) = (Num 0, Num 0, Num 0)"
  "curve_verts (snd (controlStep (atStart cb))) = poleTrack"
  "rotation (snd (controlStep (atStart cb))) = (Num 0, Num 0, Num 0)"
  "previousXRotation (snd (controlStep (atStart cb))) = Num 0"
  "previousYRotation (snd (controlStep (atStart cb))) = Num 0"
  "trackPosition (snd (controlStep (atStart cb))) = (Num 0, Num (- 0.15), Num (- 0.25))"
  "carBox (snd (controlStep (atStart cb))) = cb"
  "isPaused (snd (controlStep (atStart cb))) = False"
  "hasStarted (snd (controlStep (atStart cb)))"
  "gameStartTime (snd (controlStep (atStart cb))) = None"
  "\<not> atTitleScreen (snd (controlStep (atStart cb)))"
proof -
  have "0 * 0 + (- 0.15) * (- 0.15) + (- 0.25) * (- 0.25) \<le> (12.25 :: real)" by simp
  then have n: "\<not> Num 3.5 < vec3_distance vec3_create (Num 0, Num (- 0.15), Num (- 0.25))"
    by (rule near_origin)
  have c: "checkReachedCheckpoint (atStart cb) = atStart cb"
    using n by (simp add: checkReachedCheckpoint_def atStart_fields)
  have a: "accelerate (atStart cb) = (atStart cb)\<lparr>isIdle := True\<rparr>"
    by (simp add: accelerate_def Let_def atStart_fields)
  have d: "driveByControls ((atStart cb)\<lparr>isIdle := True\<rparr>)
             = ((Num 0, Num 0, Num 0),
                (atStart cb)\<lparr>isIdle := True, rotation := (Num 0, Num 0, Num 0)\<rparr>)"
    by (simp add: driveByControls_def Let_def atStart_fields)
  have cs: "controlStep (atStart cb)
     = (vec3_rotateZ (vec3_rotateY (vec3_rotateX (Num 0, Num 0, Num 0) vec3_create
           (- deg2rad (Num 0))) vec3_create (- deg2rad (Num 0))) vec3_create (- deg2rad (Num 0)),
        (atStart cb)\<lparr>isIdle := True, rotation := (Num 0, Num 0, Num 0)\<rparr>)"
    by (simp add: controlStep_def Let_def c a d atStart_fields
        del: vec3_rotateX.simps vec3_rotateY.simps vec3_rotateZ.simps)
  show "fst (controlStep (atStart cb)) = (Num 0, Num 0, Num 0)"
    unfolding cs by (simp add: deg2rad_def vec3_create_def Let_def)
  show "curve_verts (snd (controlStep (atStart cb))) = poleTrack"
    "rotation (snd (controlStep (atStart cb))) = (Num 0, Num 0, Num 0)"
    "previousXRotation (snd (controlStep (atStart cb))) = Num 0"
    "previousYRotation (snd (controlStep (atStart cb))) = Num 0"
    "trackPosition (snd (controlStep (atStart cb))) = (Num 0, Num (- 0.15), Num (- 0.25))"
    "carBox (snd (controlStep (atStart cb))) = cb"
    "isPaused (snd (controlStep (atStart cb))) = False"
    "hasStarted (snd (controlStep (atStart cb)))"
    "gameStartTime (snd (controlStep (atStart cb))) = None"
    "\<not> atTitleScreen (snd (controlStep (atStart cb)))"
    unfolding cs by (simp_all add: atStart_fields)
qed

lemma collide_quiet:
  assumes "\<not> collideFires s p tld trd"
  shows "collide s p dv tld trd =
     (dv, s\<lparr>previousXRotation := fst (rotation s), previousYRotation := fst (snd (rotation s))\<rparr>)"
  using assms by (auto simp: collide_def collideFires_def Let_def split: if_splits)

lemma collide_back_left:
  assumes "\<not> getDirection s" "\<not> fst p > Num 0" "tld > Num 0.2"
  shows "collide s p dv tld trd =
     (addX dv (Num 0.50),
      (crash s)\<lparr>previousXRotation := fst (rotation s),
                previousYRotation := fst (snd (rotation s))\<rparr>)"
  using assms by (simp add: collide_def Let_def crash_fields)

lemma collide_back_right:
  assumes "\<not> getDirection s" "fst p > Num 0" "trd > Num 0.1"
  shows "collide s p dv tld trd =
     (addX dv (Num (- 0.05)),
      (crash s)\<lparr>previousXRotation := fst (rotation s),
                previousYRotation := fst (snd (rotation s))\<rparr>)"
  using assms by (simp add: collide_def Let_def crash_fields)

lemma rotate_up:
  "vec3_rotateY (vec3_rotateX (Num a, Num b, Num c) vec3_create (- deg2rad (Num (- 90) - Num 0)))
     vec3_create (- deg2rad (Num 0 - Num 0)) = (Num a, Num (- c), Num b)"
  by (simp add: deg2rad_def vec3_create_def Let_def)

lemma rotate_none:
  "vec3_rotateY (vec3_rotateX (Num a, Num b, Num c) vec3_create
       (- deg2rad (Num (- 90) - Num (- 90))))
     vec3_create (- deg2rad (Num 0 - Num 0)) = (Num a, Num b, Num c)"
  by (simp add: deg2rad_def vec3_create_def Let_def)

lemma rotate_quarter:
  "vec3_rotateZ (vec3_rotateY (vec3_rotateX (Num 0, Num 0, Num w) vec3_create
       (- deg2rad (Num (- 90)))) vec3_create (- deg2rad (Num 0))) vec3_create (- deg2rad (Num 0))
     = (Num 0, Num (- w), Num 0)"
  by (simp add: deg2rad_def vec3_create_def Let_def)

text \<open>
  In the first frame the pitch becomes -90 degrees, the track point is turned away from
  the car by that change of pitch, and the car collides whatever its box is.
\<close>

lemma atStart_stayOnTrack:
  "stayOnTrack (snd (controlStep (atStart cb))) (Num 0, Num 0, Num 0) =
     ((Num 0.5, Num 0, Num 0),
      (crash ((snd (controlStep (atStart cb)))\<lparr>rotation := (Num (- 90), Num 0, Num 0)\<rparr>))
        \<lparr>previousXRotation := Num (- 90), previousYRotation := Num 0\<rparr>)"
proof -
  let ?s3 = "snd (controlStep (atStart cb))"
  let ?s1 = "?s3\<lparr>rotation := (Num (- 90), Num 0, Num 0)\<rparr>"
  note f = atStart_controlStep [of cb]
  have p: "onPole ?s3 0 (- 0.15) (- 0.25)"
    by (simp add: onPole_def f)
  have ft: "followTrack ?s3 (Num 0, Num 0, Num 0) =
      (?s1, (Num 0, Num 0.405, Num (- 0.08)), (Num 0, Num 0 + Num 0, Num 0),
       vec3_distance (Num (minX cb), Num (- 0.08), Num (minZ cb)) (Num 0, Num 0.405, Num (- 0.08)),
       vec3_distance (Num (maxX cb), Num (- 0.08), Num (minZ cb)) (Num 0, Num 0.405, Num (- 0.08)))"
    using rotate_up [of 0 "- 0.08" "- 0.405"]
    by (simp add: pole_followTrack [OF p] f Let_def
        del: vec3_distance.simps vec3_rotateX.simps vec3_rotateY.simps)
  have d: "\<not> getDirection ?s1" by (simp add: getDirection_def Let_def)
  have x: "\<not> fst (Num 0, Num 0.405, Num (- 0.08)) > Num 0" by simp
  have "(0.2 :: real) * 0.2 < (0.405 - (- 0.08)) * (0.405 - (- 0.08))" by simp
  also have "\<dots> \<le> (0 - minX cb) * (0 - minX cb) + (0.405 - (- 0.08)) * (0.405 - (- 0.08))
                    + (- 0.08 - minZ cb) * (- 0.08 - minZ cb)"
    by simp
  finally have t: "vec3_distance (Num (minX cb), Num (- 0.08), Num (minZ cb))
             (Num 0, Num 0.405, Num (- 0.08)) > Num 0.2"
    by (intro distance_gt) simp_all
  show ?thesis
    unfolding stayOnTrack_def ft
    using collide_back_left [OF d x t]
    by (simp add: addX_def del: vec3_distance.simps)
qed

lemma updatePosition_atStart:
  "updatePosition (atStart cb) =
     (crash ((snd (controlStep (atStart cb)))\<lparr>rotation := (Num (- 90), Num 0, Num 0)\<rparr>))
        \<lparr>previousXRotation := Num (- 90), previousYRotation := Num 0,
         trackPosition := (Num 0.5, Num (- 0.15), Num (- 0.25))\<rparr>"
proof -
  have c: "controlStep (atStart cb) = ((Num 0, Num 0, Num 0), snd (controlStep (atStart cb)))"
    using atStart_controlStep(1) [of cb] by (cases "controlStep (atStart cb)") simp
  show ?thesis
    unfolding updatePosition_def
    by (subst c) (simp add: atStart_stayOnTrack crash_fields atStart_controlStep)
qed

lemma afterFirstFrame_eq: "afterFirstFrame cb = updatePosition (atStart cb)"
proof -
  have "step 0 (KeyUp KeyOther) (initialState poleTrack cb)
          = modeSelect (initialState poleTrack cb)"
    by (simp add: step_def onKeyUp_def initialState_def)
  moreover have "step 0 (KeyUp Key1) (modeSelect (initialState poleTrack cb))
          = render 0 (atStart cb)"
    by (simp add: step_def onKeyUp_def initializeGame_def atStart_def modeSelect_def
        initialState_def)
  moreover have "gameStartTime (updatePosition (atStart cb)) = None"
    by (simp add: updatePosition_atStart crash_fields atStart_controlStep)
  ultimately show ?thesis
    by (simp add: afterFirstFrame_def render_def)
qed

lemma afterFirstFrame_fields:
  "curve_verts (afterFirstFrame cb) = poleTrack"
  "rotation (afterFirstFrame cb) = (Num (- 90), Num 0, Num 0)"
  "previousXRotation (afterFirstFrame cb) = Num (- 90)"
  "previousYRotation (afterFirstFrame cb) = Num 0"
  "trackPosition (afterFirstFrame cb) = (Num 0.5, Num (- 0.15), Num (- 0.25))"
  "carBox (afterFirstFrame cb) = cb"
  "hasStarted (afterFirstFrame cb)" "\<not> atTitleScreen (afterFirstFrame cb)"
  "\<not> isPaused (afterFirstFrame cb)"
  "hasCrashed (afterFirstFrame cb)" "pressed (controls (afterFirstFrame cb) Backward)"
  "val (controls (afterFirstFrame cb) Backward) = maxReverse"
  "\<not> keydownRegistered (afterFirstFrame cb)"
  unfolding afterFirstFrame_eq updatePosition_atStart
  by (simp_all add: crash_def setValue_def setPressed_def atStart_controlStep)


section \<open>A crash recovery on the pole track\<close>

lemma geometry_fields:
  "curve_verts (checkReachedCheckpoint s) = curve_verts s"
  "rotation (checkReachedCheckpoint s) = rotation s"
  "trackPosition (checkReachedCheckpoint s) = trackPosition s"
  "previousXRotation (checkReachedCheckpoint s) = previousXRotation s"
  "previousYRotation (checkReachedCheckpoint s) = previousYRotation s"
  "carBox (checkReachedCheckpoint s) = carBox s"
  "curve_verts (checkReachedFinish s) = curve_verts s"
  "rotation (checkReachedFinish s) = rotation s"
  "trackPosition (checkReachedFinish s) = trackPosition s"
  "previousXRotation (checkReachedFinish s) = previousXRotation s"
  "previousYRotation (checkReachedFinish s) = previousYRotation s"
  "carBox (checkReachedFinish s) = carBox s"
  "curve_verts (accelerate s) = curve_verts s"
  "previousXRotation (accelerate s) = previousXRotation s"
  "previousYRotation (accelerate s) = previousYRotation s"
  "carBox (accelerate s) = carBox s"
  by (simp_all add: checkReachedCheckpoint_def checkReachedFinish_def accelerate_def Let_def
      setValue_def)

lemma overPole_cong:
  assumes "curve_verts s' = curve_verts s" "rotation s' = rotation s"
    "trackPosition s' = trackPosition s" "previousXRotation s' = previousXRotation s"
    "previousYRotation s' = previousYRotation s" "carBox s' = carBox s"
  shows "overPole s' y = overPole s y"
  using assms by (simp add: overPole_def onPole_def)

text \<open>
  Over the pole track, thrown to the right by the first collision: the nearest track point
  is the front right corner of the wide car box, so the car does not collide.
\<close>

lemma overPole_followTrack:
  assumes "overPole s y"
  shows "followTrack s (d0, d1, d2) =
     (s\<lparr>rotation := (Num (- 90), Num 0, Num 0)\<rparr>,
      (Num 0.5, Num (- 0.08), Num (- 0.405)), (d0, d1 + Num 0, d2),
      vec3_distance (Num 0, Num (- 0.08), Num (- 0.405)) (Num 0.5, Num (- 0.08), Num (- 0.405)),
      Num 0)"
proof -
  have p: "onPole s 0.5 y (- 0.25)" using assms by (simp add: overPole_def)
  have d: "vec3_distance (Num 0.5, Num (- 0.08), Num (- 0.405))
             (Num 0.5, Num (- 0.08), Num (- 0.405)) = Num 0"
    by (rule vec3_distance_same)
  show ?thesis
    using assms d rotate_none [of "0.5" "- 0.08" "- 0.405"]
    by (simp add: pole_followTrack [OF p] overPole_def wideBox_def Let_def
        del: vec3_distance.simps vec3_rotateX.simps vec3_rotateY.simps)
qed

lemma overPole_quiet:
  assumes "overPole s y"
  shows "stayOnTrack s (d0, d1, d2) =
     ((d0, d1 + Num 0, d2),
      s\<lparr>rotation := (Num (- 90), Num 0, Num 0), previousXRotation := Num (- 90),
        previousYRotation := Num 0\<rparr>)"
    and "case followTrack s (d0, d1, d2) of
           (s1, p, dv1, tld, trd) \<Rightarrow> \<not> collideFires s1 p tld trd"
proof -
  let ?s1 = "s\<lparr>rotation := (Num (- 90), Num 0, Num 0)\<rparr>"
  let ?tl = "vec3_distance (Num 0, Num (- 0.08), Num (- 0.405))
               (Num 0.5, Num (- 0.08), Num (- 0.405))"
  have nf: "\<not> collideFires ?s1 (Num 0.5, Num (- 0.08), Num (- 0.405)) ?tl (Num 0)"
    by (simp add: collideFires_def getDirection_def Let_def del: vec3_distance.simps)
  show "stayOnTrack s (d0, d1, d2) =
     ((d0, d1 + Num 0, d2),
      s\<lparr>rotation := (Num (- 90), Num 0, Num 0), previousXRotation := Num (- 90),
        previousYRotation := Num 0\<rparr>)"
    unfolding stayOnTrack_def overPole_followTrack [OF assms]
    using collide_quiet [OF nf, of "(d0, d1 + Num 0, d2)"]
    by (simp del: vec3_distance.simps)
  show "case followTrack s (d0, d1, d2) of
           (s1, p, dv1, tld, trd) \<Rightarrow> \<not> collideFires s1 p tld trd"
    unfolding overPole_followTrack [OF assms] using nf by simp
qed

lemma controlStep_crashed:
  assumes "hasCrashed s" "\<not> isPaused s"
  shows "snd (controlStep s) = snd (recoverFromCrash (accelerate
           (if \<not> hasReachedCheckpoint s then checkReachedCheckpoint s else checkReachedFinish s)))"
    and "fst (controlStep s) =
           vec3_rotateZ (vec3_rotateY (vec3_rotateX
             (Num 0, Num 0, if val (controls (accelerate s) Backward) = 0 then Num 0
                            else Num 0 + Num (val (controls (accelerate s) Backward)))
             vec3_create (- deg2rad (fst (rotation s))))
             vec3_create (- deg2rad (fst (snd (rotation s)))))
             vec3_create (- deg2rad (snd (snd (rotation s))))"
proof -
  define s1 where "s1 = (if \<not> hasReachedCheckpoint s then checkReachedCheckpoint s
                         else checkReachedFinish s)"
  define s2 where "s2 = accelerate s1"
  have f1: "controls s1 = controls s" "isPaused s1 = isPaused s" "hasCrashed s1 = hasCrashed s"
    "rotation s1 = rotation s"
    by (simp_all add: s1_def check_fields geometry_fields)
  have c2: "controls s2 = controls (accelerate s)"
    unfolding s2_def by (rule accelerate_controls_cong) (simp_all add: f1)
  have f2: "isPaused s2 = isPaused s" "hasCrashed s2 = hasCrashed s" "rotation s2 = rotation s"
    by (simp_all add: s2_def accelerate_keeps accelerate_fields f1)
  have r: "rotation (snd (recoverFromCrash s2)) = rotation s"
    by (simp add: recoverFromCrash_fields f2)
  have v: "fst (recoverFromCrash s2) =
      (Num 0, Num 0, if val (controls (accelerate s) Backward) = 0 then Num 0
                     else Num 0 + Num (val (controls (accelerate s) Backward)))"
    by (simp add: recoverFromCrash_def Let_def c2)
  show "snd (controlStep s) = snd (recoverFromCrash (accelerate
           (if \<not> hasReachedCheckpoint s then checkReachedCheckpoint s else checkReachedFinish s)))"
    using assms f2 by (simp add: controlStep_def Let_def s1_def [symmetric] s2_def [symmetric])
  show "fst (controlStep s) =
           vec3_rotateZ (vec3_rotateY (vec3_rotateX
             (Num 0, Num 0, if val (controls (accelerate s) Backward) = 0 then Num 0
                            else Num 0 + Num (val (controls (accelerate s) Backward)))
             vec3_create (- deg2rad (fst (rotation s))))
             vec3_create (- deg2rad (fst (snd (rotation s)))))
             vec3_create (- deg2rad (snd (snd (rotation s))))"
    using assms f2 r v
    by (simp add: controlStep_def Let_def s1_def [symmetric] s2_def [symmetric]
        del: vec3_rotateX.simps vec3_rotateY.simps vec3_rotateZ.simps)
qed

lemma controlStep_crashed_overPole:
  assumes "hasCrashed s" "\<not> isPaused s"
  shows "overPole (snd (controlStep s)) y = overPole s y"
proof -
  define s1 where "s1 = (if \<not> hasReachedCheckpoint s then checkReachedCheckpoint s
                         else checkReachedFinish s)"
  have a: "overPole s1 y = overPole s y"
    by (rule overPole_cong) (simp_all add: s1_def geometry_fields)
  have b: "overPole (accelerate s1) y = overPole s1 y"
    by (rule overPole_cong) (simp_all add: geometry_fields accelerate_fields)
  have c: "overPole (snd (recoverFromCrash (accelerate s1))) y = overPole (accelerate s1) y"
    by (rule overPole_cong) (simp_all add: recoverFromCrash_state setPressed_def)
  show ?thesis
    unfolding controlStep_crashed(1) [OF assms] s1_def [symmetric] using a b c by simp
qed

lemma crashed_overPole_quiet:
  assumes "hasCrashed s" "\<not> isPaused s" "overPole s y"
  shows "\<not> frameCollides s"
proof -
  obtain dv s3 where c: "controlStep s = (dv, s3)" by (cases "controlStep s")
  obtain d0 d1 d2 where dv: "dv = (d0, d1, d2)" by (cases dv)
  have "overPole s3 y"
    using controlStep_crashed_overPole [OF assms(1,2), of y] assms(3) c by simp
  from overPole_quiet(2) [OF this, of d0 d1 d2] show ?thesis
    by (auto simp: frameCollides_def c dv split: prod.splits)
qed

lemma overPole_recovery_frame:
  assumes "hasCrashed s" "\<not> isPaused s" "overPole s y"
    and "val (controls (accelerate s) Backward) = w" "w \<le> 0"
  shows "overPole (updatePosition s) (y - w)"
proof -
  obtain dv s3 where c: "controlStep s = (dv, s3)" by (cases "controlStep s")
  have o3: "overPole s3 y"
    using controlStep_crashed_overPole [OF assms(1,2), of y] assms(3) c by simp
  have rot: "rotation s = (Num (- 90), Num 0, Num 0)"
    using assms(3) by (simp add: overPole_def)
  have "dv = vec3_rotateZ (vec3_rotateY (vec3_rotateX
             (Num 0, Num 0, if w = 0 then Num 0 else Num 0 + Num w)
             vec3_create (- deg2rad (Num (- 90))))
             vec3_create (- deg2rad (Num 0)))
             vec3_create (- deg2rad (Num 0))"
    using controlStep_crashed(2) [OF assms(1,2)] c assms(4) rot by simp
  also have "\<dots> = (Num 0, Num (- w), Num 0)"
    using rotate_quarter [of w] rotate_quarter [of 0] by (cases "w = 0") simp_all
  finally have dv: "dv = (Num 0, Num (- w), Num 0)" .
  have st: "stayOnTrack s3 dv =
     ((Num 0, Num (- w) + Num 0, Num 0),
      s3\<lparr>rotation := (Num (- 90), Num 0, Num 0), previousXRotation := Num (- 90),
         previousYRotation := Num 0\<rparr>)"
    unfolding dv by (rule overPole_quiet(1) [OF o3])
  have tp: "trackPosition s3 = (Num 0.5, Num y, Num (- 0.25))"
    and cv: "curve_verts s3 = poleTrack" and cb: "carBox s3 = wideBox"
    using o3 by (simp_all add: overPole_def onPole_def)
  have y: "- 0.58 \<le> y" using assms(3) by (simp add: overPole_def onPole_def)
  show ?thesis
    using tp cv cb y assms(5)
    by (simp add: updatePosition_def c st overPole_def onPole_def)
qed

text \<open>
  The game on the pole track with the wide car box: the first frame crashes the car, and
  the 80 frames after it do not collide.
\<close>

lemma crashed_facts:
  "hasCrashed (afterFirstFrame wideBox)"
  "pressed (controls (afterFirstFrame wideBox) Backward)"
  "val (controls (afterFirstFrame wideBox) Backward) = maxReverse"
  "\<not> keydownRegistered (afterFirstFrame wideBox)"
  "\<not> isPaused (afterFirstFrame wideBox)"
  by (simp_all add: afterFirstFrame_fields)

lemma crashed_frames:
  "k \<le> 80 \<Longrightarrow> recoveringAt k ((updatePosition ^^ k) (afterFirstFrame wideBox)) \<and>
               (\<exists>y. overPole ((updatePosition ^^ k) (afterFirstFrame wideBox)) y)"
proof (induction k)
  case 0
  have "recoveringAt 0 (afterFirstFrame wideBox)"
    using crashed_facts by (simp add: recoveringAt_def maxReverse_def)
  moreover have "overPole (afterFirstFrame wideBox) (- 0.15)"
    by (simp add: overPole_def onPole_def afterFirstFrame_fields)
  ultimately show ?case by auto
next
  case (Suc k)
  let ?s = "(updatePosition ^^ k) (afterFirstFrame wideBox)"
  have k: "k < 80" using Suc.prems by simp
  have r: "recoveringAt k ?s" using Suc by simp
  obtain y where o: "overPole ?s y" using Suc by auto
  have h: "hasCrashed ?s" "pressed (controls ?s Backward)" "\<not> isPaused ?s"
    "val (controls ?s Backward) = of_int (25 * int k - 2000) / 1000000"
    using r k by (simp_all add: recoveringAt_def)
  have q: "\<not> frameCollides ?s"
    by (rule crashed_overPole_quiet [OF h(1,3) o])
  have r': "recoveringAt (Suc k) (updatePosition ?s)"
    by (rule recoveringAt_step [OF r k q])
  have a: "val (controls (accelerate ?s) Backward) = of_int (25 * int k - 2000 + 25) / 1000000"
    by (rule accelerate_backward_crashed [OF h(3,2,1,4)])
  have "25 * int k - 2000 + 25 \<le> 0" using k by simp
  then have le: "real_of_int (25 * int k - 2000 + 25) / 1000000 \<le> 0"
    by (simp del: of_int_add of_int_diff)
  have o': "overPole (updatePosition ?s) (y - of_int (25 * int k - 2000 + 25) / 1000000)"
    by (rule overPole_recovery_frame [OF h(1,3) o a le])
  show ?case using r' o' by auto
qed

lemma crashed_quiet:
  "\<forall>k<80. \<not> frameCollides ((updatePosition ^^ k) (afterFirstFrame wideBox))"
proof (intro allI impI)
  fix k :: nat assume k: "k < 80"
  then have k0: "k \<le> 80" by simp
  let ?s = "(updatePosition ^^ k) (afterFirstFrame wideBox)"
  have r: "recoveringAt k ?s" and "\<exists>y. overPole ?s y"
    using crashed_frames [OF k0] by simp_all
  then obtain y where o: "overPole ?s y" by auto
  have h: "hasCrashed ?s" "\<not> isPaused ?s"
    using r k by (simp_all add: recoveringAt_def)
  show "\<not> frameCollides ?s"
    by (rule crashed_overPole_quiet [OF h o])
qed

section \<open>The progress flags and the crash flag\<close>

lemma controlStep_started:
  "hasStarted (snd (controlStep s)) = hasStarted s"
  "gameStartTime (snd (controlStep s)) = gameStartTime s"
  by (simp_all add: controlStep_def Let_def accelerate_keeps accelerate_fields
      driveByControls_fields recoverFromCrash_fields checkReachedCheckpoint_def
      checkReachedFinish_def)

lemma updatePosition_started:
  "hasStarted (updatePosition s) = hasStarted s"
  "gameStartTime (updatePosition s) = gameStartTime s"
proof -
  obtain dv s3 where c: "controlStep s = (dv, s3)" by (cases "controlStep s")
  obtain v s4 where t: "stayOnTrack s3 dv = (v, s4)" by (cases "stayOnTrack s3 dv")
  have "hasStarted s4 = hasStarted s3" "gameStartTime s4 = gameStartTime s3"
    using stayOnTrack_fields(4,5) [of s3 dv] t by simp_all
  moreover have "hasStarted s3 = hasStarted s" "gameStartTime s3 = gameStartTime s"
    using controlStep_started [of s] c by simp_all
  ultimately show "hasStarted (updatePosition s) = hasStarted s"
    "gameStartTime (updatePosition s) = gameStartTime s"
    by (simp_all add: updatePosition_def c t)
qed

lemma frames_started:
  "hasStarted ((updatePosition ^^ k) s) = hasStarted s"
  "gameStartTime ((updatePosition ^^ k) s) = gameStartTime s"
  by (induction k) (simp_all add: updatePosition_started)

text \<open>Until a key starts the timer, a frame is the position update alone.\<close>

lemma frames_untimed:
  assumes "hasStarted s" "gameStartTime s = None"
  shows "(step t Frame ^^ k) s = (updatePosition ^^ k) s"
proof (induction k)
  case 0
  show ?case by simp
next
  case (Suc k)
  have "gameStartTime (updatePosition ((updatePosition ^^ k) s)) = None"
    "hasStarted ((updatePosition ^^ k) s)"
    using assms by (simp_all add: updatePosition_started frames_started)
  then show ?case
    using Suc by (simp add: step_def render_def)
qed

theorem progress_flags_monotonic_witness:
  "hasWon wonState \<and> hasWon (step 0 Frame wonState) \<and>
   hasReachedCheckpoint wonState \<and> hasReachedCheckpoint (step 0 Frame wonState)"
  using progress_flags_monotonic [of wonState 0 Frame]
  by (simp add: wonState_def)

text \<open>
  C5 as stated fails for \<open>hasCrashed\<close>: on the pole track with the wide car box the
  first frame of the game crashes the car; 79 frames later the flag is still set, and the
  next frame, which ends the recovery, resets it.
\<close>

theorem hasCrashed_reset_counterexample:
  "hasStarted ((step 0 Frame ^^ 79) (afterFirstFrame wideBox)) \<and>
   hasCrashed ((step 0 Frame ^^ 79) (afterFirstFrame wideBox)) \<and>
   \<not> hasCrashed (step 0 Frame ((step 0 Frame ^^ 79) (afterFirstFrame wideBox)))"
proof -
  let ?c = "afterFirstFrame wideBox"
  let ?s = "(updatePosition ^^ 79) ?c"
  have g: "gameStartTime ?c = None"
    unfolding afterFirstFrame_eq
    by (simp add: updatePosition_started atStart_fields)
  have h: "hasStarted ?c" by (simp add: afterFirstFrame_fields)
  have e79: "(step 0 Frame ^^ 79) ?c = ?s"
    by (rule frames_untimed [OF h g])
  have "(step 0 Frame ^^ Suc 79) ?c = (updatePosition ^^ Suc 79) ?c"
    by (rule frames_untimed [OF h g])
  then have e80: "step 0 Frame ?s = updatePosition ?s"
    unfolding funpow.simps(2) o_apply e79 .
  note r = recoveringAt_frames [OF crashed_facts crashed_quiet]
  have st: "hasStarted ?s"
    by (simp only: frames_started) (simp add: afterFirstFrame_fields)
  have "recoveringAt 79 ?s" by (rule r) simp
  then have a: "hasCrashed ?s" by (simp add: recoveringAt_def)
  have "recoveringAt (Suc 79) ((updatePosition ^^ Suc 79) ?c)" by (rule r) simp
  then have b: "\<not> hasCrashed (updatePosition ?s)"
    unfolding funpow.simps(2) o_apply by (simp add: recoveringAt_def)
  show ?thesis
    unfolding e79 e80 using st a b by simp
qed

section \<open>The progress checks\<close>

text \<open>
  C8 fails on the code: both progress checks measure the distance from the origin to
  \<open>trackPosition\<close>, not the distance between \<open>trackPosition\<close> and the car position. With
  the track at (0, 0, -3.55) the checkpoint flag is set although the car is not farther
  than 3.5 from the track position; with the track at (0, 0, 0.2) and the checkpoint
  reached, the game is won although the car is not nearer than 0.3.
\<close>

theorem progress_measured_from_origin:
  "\<not> hasReachedCheckpoint farState \<and> hasReachedCheckpoint (updatePosition farState) \<and>
   \<not> vec3_distance (trackPosition farState) carPosition > Num 3.5 \<and>
   hasReachedCheckpoint nearState \<and> \<not> hasWon nearState \<and> hasWon (updatePosition nearState) \<and>
   \<not> vec3_distance (trackPosition nearState) carPosition < Num 0.3"
proof -
  have f0: "\<not> hasReachedCheckpoint farState"
    "trackPosition farState = (Num 0, Num 0, Num (- 3.55))"
    by (simp_all add: farState_def heldForward_def onKeyDown_def startPlaying_def
        setControls_def modeSelect_def initialState_def setPressed_def Let_def)
  have n0: "hasReachedCheckpoint nearState" "\<not> hasWon nearState"
    "trackPosition nearState = (Num 0, Num 0, Num 0.2)"
    by (simp_all add: nearState_def heldForward_def onKeyDown_def startPlaying_def
        setControls_def modeSelect_def initialState_def setPressed_def Let_def)
  have a: "Num 3.5 < vec3_distance vec3_create (Num 0, Num 0, Num (- 3.55))"
    unfolding vec3_create_def by (rule distance_gt) simp_all
  have b: "\<not> Num 3.5 < vec3_distance (Num 0, Num 0, Num (- 3.55)) carPosition"
    unfolding carPosition_def by (rule distance_le) simp_all
  have c: "vec3_distance vec3_create (Num 0, Num 0, Num 0.2) < Num 0.3"
    unfolding vec3_create_def by (rule distance_lt) simp_all
  have d: "\<not> vec3_distance (Num 0, Num 0, Num 0.2) carPosition < Num 0.3"
    unfolding carPosition_def by (rule distance_ge) simp_all
  show ?thesis
    unfolding updatePosition_flags f0 n0 using f0(1) n0(1,2) a b c d by blast
qed

section \<open>A paused frame\<close>

lemma pausedAfterFirstFrame_fields:
  "curve_verts pausedAfterFirstFrame = poleTrack"
  "rotation pausedAfterFirstFrame = (Num (- 90), Num 0, Num 0)"
  "previousXRotation pausedAfterFirstFrame = Num (- 90)"
  "previousYRotation pausedAfterFirstFrame = Num 0"
  "trackPosition pausedAfterFirstFrame = (Num 0.5, Num (- 0.15), Num (- 0.25))"
  "carBox pausedAfterFirstFrame = demoBox"
  "hasStarted pausedAfterFirstFrame" "isPaused pausedAfterFirstFrame"
  by (simp_all add: pausedAfterFirstFrame_def step_def onKeyUp_def pause_def
      afterFirstFrame_fields)

lemma controlStep_paused:
  assumes "isPaused s"
  shows "fst (controlStep s) =
           vec3_rotateZ (vec3_rotateY (vec3_rotateX (Num 0, Num 0, Num 0)
             vec3_create (- deg2rad (fst (rotation s))))
             vec3_create (- deg2rad (fst (snd (rotation s)))))
             vec3_create (- deg2rad (snd (snd (rotation s))))"
    and "curve_verts (snd (controlStep s)) = curve_verts s"
    and "rotation (snd (controlStep s)) = rotation s"
    and "trackPosition (snd (controlStep s)) = trackPosition s"
    and "previousXRotation (snd (controlStep s)) = previousXRotation s"
    and "previousYRotation (snd (controlStep s)) = previousYRotation s"
    and "carBox (snd (controlStep s)) = carBox s"
    and "gameStartTime (snd (controlStep s)) = gameStartTime s"
proof -
  define s1 where "s1 = (if \<not> hasReachedCheckpoint s then checkReachedCheckpoint s
                         else checkReachedFinish s)"
  define s2 where "s2 = accelerate s1"
  have f1: "isPaused s1" "rotation s1 = rotation s" "curve_verts s1 = curve_verts s"
    "trackPosition s1 = trackPosition s" "previousXRotation s1 = previousXRotation s"
    "previousYRotation s1 = previousYRotation s" "carBox s1 = carBox s"
    "gameStartTime s1 = gameStartTime s"
    using assms
    by (simp_all add: s1_def check_fields geometry_fields checkReachedCheckpoint_def
        checkReachedFinish_def)
  have f2: "isPaused s2" "rotation s2 = rotation s" "curve_verts s2 = curve_verts s"
    "trackPosition s2 = trackPosition s" "previousXRotation s2 = previousXRotation s"
    "previousYRotation s2 = previousYRotation s" "carBox s2 = carBox s"
    "gameStartTime s2 = gameStartTime s"
    by (simp_all add: s2_def accelerate_keeps accelerate_fields geometry_fields f1)
  have cs: "controlStep s =
      (vec3_rotateZ (vec3_rotateY (vec3_rotateX (Num 0, Num 0, Num 0)
             vec3_create (- deg2rad (fst (rotation s))))
             vec3_create (- deg2rad (fst (snd (rotation s)))))
             vec3_create (- deg2rad (snd (snd (rotation s)))), s2)"
    using f2(1,2)
    by (simp add: controlStep_def Let_def s1_def [symmetric] s2_def [symmetric]
        del: vec3_rotateX.simps vec3_rotateY.simps vec3_rotateZ.simps)
  show "fst (controlStep s) =
           vec3_rotateZ (vec3_rotateY (vec3_rotateX (Num 0, Num 0, Num 0)
             vec3_create (- deg2rad (fst (rotation s))))
             vec3_create (- deg2rad (fst (snd (rotation s)))))
             vec3_create (- deg2rad (snd (snd (rotation s))))"
    and "curve_verts (snd (controlStep s)) = curve_verts s"
    and "rotation (snd (controlStep s)) = rotation s"
    and "trackPosition (snd (controlStep s)) = trackPosition s"
    and "previousXRotation (snd (controlStep s)) = previousXRotation s"
    and "previousYRotation (snd (controlStep s)) = previousYRotation s"
    and "carBox (snd (controlStep s)) = carBox s"
    and "gameStartTime (snd (controlStep s)) = gameStartTime s"
    unfolding cs using f2 by simp_all
qed

lemma paused_stayOnTrack:
  "stayOnTrack (snd (controlStep pausedAfterFirstFrame)) (Num 0, Num 0, Num 0) =
     ((Num (- 0.05), Num 0, Num 0),
      (crash ((snd (controlStep pausedAfterFirstFrame))
                \<lparr>rotation := (Num (- 90), Num 0, Num 0)\<rparr>))
        \<lparr>previousXRotation := Num (- 90), previousYRotation := Num 0\<rparr>)"
proof -
  let ?s3 = "snd (controlStep pausedAfterFirstFrame)"
  let ?s1 = "?s3\<lparr>rotation := (Num (- 90), Num 0, Num 0)\<rparr>"
  note f = controlStep_paused(2-7) [OF pausedAfterFirstFrame_fields(8),
      unfolded pausedAfterFirstFrame_fields]
  have p: "onPole ?s3 0.5 (- 0.15) (- 0.25)"
    by (simp add: onPole_def f)
  have ft: "followTrack ?s3 (Num 0, Num 0, Num 0) =
      (?s1, (Num 0.5, Num (- 0.08), Num (- 0.405)), (Num 0, Num 0 + Num 0, Num 0),
       vec3_distance (Num 0, Num (- 0.08), Num (- 0.405)) (Num 0.5, Num (- 0.08), Num (- 0.405)),
       vec3_distance (Num 0.02, Num (- 0.08), Num (- 0.405)) (Num 0.5, Num (- 0.08), Num (- 0.405)))"
    using rotate_none [of "0.5" "- 0.08" "- 0.405"]
    by (simp add: pole_followTrack [OF p] f demoBox_def Let_def
        del: vec3_distance.simps vec3_rotateX.simps vec3_rotateY.simps)
  have d: "\<not> getDirection ?s1" by (simp add: getDirection_def Let_def)
  have x: "fst (Num 0.5, Num (- 0.08), Num (- 0.405)) > Num 0" by simp
  have t: "vec3_distance (Num 0.02, Num (- 0.08), Num (- 0.405))
             (Num 0.5, Num (- 0.08), Num (- 0.405)) > Num 0.1"
    by (rule distance_gt) simp_all
  show ?thesis
    unfolding stayOnTrack_def ft
    using collide_back_right [OF d x t]
    by (simp add: addX_def del: vec3_distance.simps)
qed

text \<open>
  C4 fails on the code: on the pole track the first frame ends in a collision; the game
  is then paused, and the next frame, run while \<open>isPaused\<close> is true, collides again and
  moves the track position from 0.5 to 0.45 in its first component.
\<close>

theorem paused_frame_moves_track:
  "hasStarted pausedAfterFirstFrame \<and> isPaused pausedAfterFirstFrame \<and>
   trackPosition pausedAfterFirstFrame = (Num 0.5, Num (- 0.15), Num (- 0.25)) \<and>
   trackPosition (step 0 Frame pausedAfterFirstFrame) = (Num 0.45, Num (- 0.15), Num (- 0.25))"
proof -
  let ?s = "pausedAfterFirstFrame"
  note f = controlStep_paused [OF pausedAfterFirstFrame_fields(8),
      unfolded pausedAfterFirstFrame_fields]
  have z: "fst (controlStep ?s) = (Num 0, Num 0, Num 0)"
    unfolding f(1) using rotate_quarter [of 0] by simp
  have c: "controlStep ?s = ((Num 0, Num 0, Num 0), snd (controlStep ?s))"
    using z by (cases "controlStep ?s") simp
  have u: "trackPosition (updatePosition ?s) = (Num 0.45, Num (- 0.15), Num (- 0.25))"
    unfolding updatePosition_def
    by (subst c) (simp add: paused_stayOnTrack crash_fields f)
  have t: "trackPosition (render 0 ?s) = trackPosition (updatePosition ?s)"
    by (simp add: render_def updateTimer_def calculateElapsedTime_def Let_def)
  show ?thesis
    using u t by (simp add: step_def pausedAfterFirstFrame_fields)
qed

section \<open>Sessions\<close>

lemma run_append: "run (as @ bs) s = run bs (run as s)"
  by (induction as arbitrary: s) auto

lemma noCollision_append:
  "noCollision (as @ bs) s = (noCollision as s \<and> noCollision bs (run as s))"
  by (induction as arbitrary: s) auto

lemma frames_simps:
  "frames [] = 0"
  "frames ((t, e) # es) = (if e = Frame then Suc (frames es) else frames es)"
  "frames (as @ bs) = frames as + frames bs"
  "frames (replicate n (t, Frame)) = n"
  by (simp_all add: frames_def)

lemma undisturbed_simps:
  "undisturbed []"
  "undisturbed ((t, e) # es) =
     (e \<noteq> KeyUp (Ctl Backward) \<and> e \<noteq> KeyUp KeyP \<and> undisturbed es)"
  "undisturbed (as @ bs) = (undisturbed as \<and> undisturbed bs)"
  "undisturbed (replicate n (t, Frame))"
  by (auto simp: undisturbed_def)

text \<open>The frame update leaves the turn remembered while idle alone.\<close>

lemma twi_fields:
  "twiDirection (checkReachedCheckpoint s) = twiDirection s"
  "twiTurning (checkReachedCheckpoint s) = twiTurning s"
  "twiDirection (checkReachedFinish s) = twiDirection s"
  "twiTurning (checkReachedFinish s) = twiTurning s"
  "twiDirection (accelerate s) = twiDirection s"
  "twiTurning (accelerate s) = twiTurning s"
  "twiDirection (snd (driveByControls s)) = twiDirection s"
  "twiTurning (snd (driveByControls s)) = twiTurning s"
  "twiDirection (snd (recoverFromCrash s)) = twiDirection s"
  "twiTurning (snd (recoverFromCrash s)) = twiTurning s"
  "twiDirection (crash s) = twiDirection s"
  "twiTurning (crash s) = twiTurning s"
  by (simp_all add: checkReachedCheckpoint_def checkReachedFinish_def accelerate_def Let_def
      setValue_def driveByControls_def recoverFromCrash_def setPressed_def crash_def)

lemma controlStep_twi:
  "twiDirection (snd (controlStep s)) = twiDirection s"
  "twiTurning (snd (controlStep s)) = twiTurning s"
  by (simp_all add: controlStep_def Let_def twi_fields)

lemma stayOnTrack_twi:
  "twiDirection (snd (stayOnTrack s dv)) = twiDirection s"
  "twiTurning (snd (stayOnTrack s dv)) = twiTurning s"
proof -
  have "twiDirection (fst (followTrack s dv)) = twiDirection s"
    "twiTurning (fst (followTrack s dv)) = twiTurning s"
    by (subst followTrack_state, simp)+
  then show "twiDirection (snd (stayOnTrack s dv)) = twiDirection s"
    "twiTurning (snd (stayOnTrack s dv)) = twiTurning s"
    by (auto simp: stayOnTrack_state twi_fields split: prod.splits)
qed

lemma updatePosition_twi:
  "twiDirection (updatePosition s) = twiDirection s"
  "twiTurning (updatePosition s) = twiTurning s"
proof -
  obtain dv s3 where c: "controlStep s = (dv, s3)" by (cases "controlStep s")
  obtain v s4 where t: "stayOnTrack s3 dv = (v, s4)" by (cases "stayOnTrack s3 dv")
  have "twiDirection s4 = twiDirection s3" "twiTurning s4 = twiTurning s3"
    using stayOnTrack_twi [of s3 dv] t by simp_all
  moreover have "twiDirection s3 = twiDirection s" "twiTurning s3 = twiTurning s"
    using controlStep_twi [of s] c by simp_all
  ultimately show "twiDirection (updatePosition s) = twiDirection s"
    "twiTurning (updatePosition s) = twiTurning s"
    by (simp_all add: updatePosition_def c t)
qed

text \<open>\<open>render\<close> is the position update but for the two fields of the timer.\<close>

lemma render_fields:
  "controls (render t s) = controls (updatePosition s)"
  "hasCrashed (render t s) = hasCrashed (updatePosition s)"
  "isPaused (render t s) = isPaused (updatePosition s)"
  "keydownRegistered (render t s) = keydownRegistered (updatePosition s)"
  "hasStarted (render t s) = hasStarted s"
  "twiDirection (render t s) = twiDirection s"
  "twiTurning (render t s) = twiTurning s"
  "curve_verts (render t s) = curve_verts (updatePosition s)"
  "rotation (render t s) = rotation (updatePosition s)"
  "trackPosition (render t s) = trackPosition (updatePosition s)"
  "previousXRotation (render t s) = previousXRotation (updatePosition s)"
  "previousYRotation (render t s) = previousYRotation (updatePosition s)"
  "carBox (render t s) = carBox (updatePosition s)"
  by (simp_all add: render_def updateTimer_def calculateElapsedTime_def Let_def
      updatePosition_started updatePosition_twi)

lemma step_Frame: "hasStarted s \<Longrightarrow> step t Frame s = render t s"
  by (simp add: step_def)

lemma render_recoveringAt: "recoveringAt k (render t s) = recoveringAt k (updatePosition s)"
  by (simp add: recoveringAt_def render_fields)

lemma render_overPole: "overPole (render t s) y = overPole (updatePosition s) y"
  by (rule overPole_cong) (simp_all add: render_fields)

text \<open>
  In a session the crash flag is set by a frame only, and frames run once the game has
  started; the turn remembered while idle is a turn to the right or to the left.
\<close>

lemma onKeyDown_session:
  "hasCrashed (onKeyDown t k s) = hasCrashed s"
  "hasStarted (onKeyDown t k s) = hasStarted s"
  "twiDirection s \<noteq> Some Backward \<Longrightarrow> twiDirection (onKeyDown t k s) \<noteq> Some Backward"
proof -
  show "hasCrashed (onKeyDown t k s) = hasCrashed s"
    by (cases k) (simp_all add: onKeyDown_def Let_def setPressed_def split: option.splits)
  show "hasStarted (onKeyDown t k s) = hasStarted s"
    by (cases k) (simp_all add: onKeyDown_def Let_def setPressed_def split: option.splits)
  show "twiDirection s \<noteq> Some Backward \<Longrightarrow> twiDirection (onKeyDown t k s) \<noteq> Some Backward"
    by (cases k) (auto simp: onKeyDown_def Let_def setPressed_def split: option.splits)
qed

lemma onKeyUp_game:
  assumes "hasStarted s"
  shows "hasStarted (onKeyUp t k s)"
    and "hasCrashed (onKeyUp t k s) = hasCrashed s"
    and "twiDirection (onKeyUp t k s) = twiDirection s"
    and "keydownRegistered (onKeyUp t k s) = (if k = KeyP \<and> \<not> atTitleScreen s then isPaused s else keydownRegistered s)"
    and "val (controls (onKeyUp t k s) d) = val (controls s d)"
    and "k \<noteq> KeyP \<Longrightarrow> isPaused (onKeyUp t k s) = isPaused s"
    and "curve_verts (onKeyUp t k s) = curve_verts s"
    and "rotation (onKeyUp t k s) = rotation s"
    and "trackPosition (onKeyUp t k s) = trackPosition s"
    and "previousXRotation (onKeyUp t k s) = previousXRotation s"
    and "previousYRotation (onKeyUp t k s) = previousYRotation s"
    and "carBox (onKeyUp t k s) = carBox s"
proof -
  have e: "onKeyUp t k s =
     (if atTitleScreen s then modeSelect s
      else case k of
           KeyP \<Rightarrow> pause s
         | Ctl d \<Rightarrow>
             (let s1 = setPressed d False s;
                  s2 = (if (d = Forward \<or> d = Backward) \<and> twiTurning s1
                        then (case twiDirection s1 of
                                Some t \<Rightarrow> setPressed t False s1
                              | None \<Rightarrow> s1)
                        else s1)
              in if twiDirection s2 = Some d then s2\<lparr>twiTurning := False\<rparr> else s2)
         | _ \<Rightarrow> s)"
    using assms by (simp add: onKeyUp_def)
  show "hasStarted (onKeyUp t k s)"
    using assms unfolding e
    by (cases k) (simp_all add: Let_def setPressed_def modeSelect_def pause_def split: option.splits)
  show "hasCrashed (onKeyUp t k s) = hasCrashed s"
    unfolding e
    by (cases k) (simp_all add: Let_def setPressed_def modeSelect_def pause_def split: option.splits)
  show "twiDirection (onKeyUp t k s) = twiDirection s"
    unfolding e
    by (cases k) (simp_all add: Let_def setPressed_def modeSelect_def pause_def split: option.splits)
  show "keydownRegistered (onKeyUp t k s) = (if k = KeyP \<and> \<not> atTitleScreen s then isPaused s else keydownRegistered s)"
    unfolding e
    by (cases k) (simp_all add: Let_def setPressed_def modeSelect_def pause_def split: option.splits)
  show "val (controls (onKeyUp t k s) d) = val (controls s d)"
    unfolding e
    by (cases k) (simp_all add: Let_def setPressed_def modeSelect_def pause_def split: option.splits)
  show "k \<noteq> KeyP \<Longrightarrow> isPaused (onKeyUp t k s) = isPaused s"
    unfolding e
    by (cases k) (simp_all add: Let_def setPressed_def modeSelect_def split: option.splits)
  show "curve_verts (onKeyUp t k s) = curve_verts s"
    unfolding e
    by (cases k) (simp_all add: Let_def setPressed_def modeSelect_def pause_def split: option.splits)
  show "rotation (onKeyUp t k s) = rotation s"
    unfolding e
    by (cases k) (simp_all add: Let_def setPressed_def modeSelect_def pause_def split: option.splits)
  show "trackPosition (onKeyUp t k s) = trackPosition s"
    unfolding e
    by (cases k) (simp_all add: Let_def setPressed_def modeSelect_def pause_def split: option.splits)
  show "previousXRotation (onKeyUp t k s) = previousXRotation s"
    unfolding e
    by (cases k) (simp_all add: Let_def setPressed_def modeSelect_def pause_def split: option.splits)
  show "previousYRotation (onKeyUp t k s) = previousYRotation s"
    unfolding e
    by (cases k) (simp_all add: Let_def setPressed_def modeSelect_def pause_def split: option.splits)
  show "carBox (onKeyUp t k s) = carBox s"
    unfolding e
    by (cases k) (simp_all add: Let_def setPressed_def modeSelect_def pause_def split: option.splits)
qed

lemma onKeyUp_menu:
  assumes "\<not> hasStarted s" "\<not> hasCrashed s"
  shows "hasCrashed (onKeyUp t k s) \<longrightarrow> hasStarted (onKeyUp t k s)"
    and "twiDirection (onKeyUp t k s) = twiDirection s"
proof -
  have i: "hasStarted (initializeGame t s)" "twiDirection (initializeGame t s) = twiDirection s"
    by (simp_all add: initializeGame_def render_fields startPlaying_def setControls_def)
  show "hasCrashed (onKeyUp t k s) \<longrightarrow> hasStarted (onKeyUp t k s)"
    using assms i(1)
    by (cases k) (simp_all add: onKeyUp_def modeSelect_def helpMenu_def exitHelpMenu_def)
  show "twiDirection (onKeyUp t k s) = twiDirection s"
    using assms i(2)
    by (cases k) (simp_all add: onKeyUp_def modeSelect_def helpMenu_def exitHelpMenu_def)
qed

lemma step_session:
  assumes "hasCrashed s \<longrightarrow> hasStarted s" "twiDirection s \<noteq> Some Backward"
  shows "hasCrashed (step t e s) \<longrightarrow> hasStarted (step t e s)"
    and "twiDirection (step t e s) \<noteq> Some Backward"
proof -
  have u: "(hasCrashed (onKeyUp t k s) \<longrightarrow> hasStarted (onKeyUp t k s)) \<and>
           twiDirection (onKeyUp t k s) \<noteq> Some Backward" for k
  proof (cases "hasStarted s")
    case True
    show ?thesis using onKeyUp_game(1,3) [OF True, of t k] assms(2) by simp
  next
    case False
    then have "\<not> hasCrashed s" using assms(1) by blast
    from onKeyUp_menu [OF False this, of t k] assms(2) show ?thesis by simp
  qed
  show "hasCrashed (step t e s) \<longrightarrow> hasStarted (step t e s)"
  proof (cases e)
    case (KeyDown k)
    then show ?thesis using assms(1) by (simp add: step_def onKeyDown_session)
  next
    case (KeyUp k)
    then show ?thesis using u [of k] by (simp add: step_def)
  next
    case Frame
    then show ?thesis using assms(1) by (auto simp: step_def render_fields)
  qed
  show "twiDirection (step t e s) \<noteq> Some Backward"
  proof (cases e)
    case (KeyDown k)
    then show ?thesis
      using assms(2) onKeyDown_session(3) [OF assms(2), of t k] by (simp add: step_def)
  next
    case (KeyUp k)
    then show ?thesis using u [of k] by (simp add: step_def)
  next
    case Frame
    then show ?thesis using assms(2) by (simp add: step_def render_fields)
  qed
qed

lemma run_session:
  assumes "hasCrashed s \<longrightarrow> hasStarted s" "twiDirection s \<noteq> Some Backward"
  shows "(hasCrashed (run es s) \<longrightarrow> hasStarted (run es s)) \<and>
         twiDirection (run es s) \<noteq> Some Backward"
  using assms
proof (induction es arbitrary: s)
  case Nil
  then show ?case by simp
next
  case (Cons te es)
  obtain t e where te: "te = (t, e)" by (cases te)
  show ?case
    unfolding te run.simps
    by (rule Cons.IH) (rule step_session [OF Cons.prems])+
qed

lemma session_facts:
  "hasCrashed (run es (initialState cv cb)) \<Longrightarrow> hasStarted (run es (initialState cv cb))"
  "twiDirection (run es (initialState cv cb)) \<noteq> Some Backward"
  using run_session [of "initialState cv cb" es] by (simp_all add: initialState_def)


section \<open>Crash recovery in a session\<close>

text \<open>
  While the car recovers, a key-down does nothing, for its handler is removed, and a
  key-up other than that of the backward key or of p leaves the recovery as it is.
\<close>

lemma recovering_key:
  assumes r: "recoveringAt k s" and k: "k < 80" and st: "hasStarted s"
    and tw: "twiDirection s \<noteq> Some Backward"
    and e: "e \<noteq> Frame" "e \<noteq> KeyUp (Ctl Backward)" "e \<noteq> KeyUp KeyP"
  shows "recoveringAt k (step t e s)" and "hasStarted (step t e s)"
    and "twiDirection (step t e s) \<noteq> Some Backward"
proof -
  have h: "hasCrashed s" "pressed (controls s Backward)" "\<not> isPaused s"
    "\<not> keydownRegistered s"
    using r k by (simp_all add: recoveringAt_def)
  have p: "pressed (controls (onKeyUp t key s) Backward)"
    if "key \<noteq> Ctl Backward" "key \<noteq> KeyP" for key
  proof (cases key)
    case (Ctl d)
    then have d: "d \<noteq> Backward" using that by simp
    show ?thesis
      using st h(2) tw d unfolding Ctl
      by (auto simp: onKeyUp_def Let_def setPressed_def modeSelect_def split: option.splits)
  qed (use st h(2) that in \<open>simp_all add: onKeyUp_def modeSelect_def\<close>)
  have u: "recoveringAt k (onKeyUp t key s)"
    if "key \<noteq> Ctl Backward" "key \<noteq> KeyP" for key
    using r k p [OF that] that(2) onKeyUp_game(2,4,5,6) [OF st, where t = t and k = key]
    by (simp add: recoveringAt_def)
  show "recoveringAt k (step t e s)"
  proof (cases e)
    case (KeyDown key)
    then show ?thesis using r h(4) by (simp add: step_def)
  next
    case (KeyUp key)
    then show ?thesis using u [of key] e by (simp add: step_def)
  next
    case Frame
    then show ?thesis using e by simp
  qed
  show "hasStarted (step t e s)"
  proof (cases e)
    case (KeyDown key)
    then show ?thesis using st h(4) by (simp add: step_def)
  next
    case (KeyUp key)
    then show ?thesis using onKeyUp_game(1) [OF st, of t key] by (simp add: step_def)
  next
    case Frame
    then show ?thesis using e by simp
  qed
  show "twiDirection (step t e s) \<noteq> Some Backward"
    using h(1) st tw by (intro step_session(2)) simp_all
qed

lemma recovering_frame:
  assumes r: "recoveringAt k s" and k: "k < 80" and st: "hasStarted s"
    and tw: "twiDirection s \<noteq> Some Backward" and q: "\<not> frameCollides s"
  shows "recoveringAt (Suc k) (step t Frame s)" and "hasStarted (step t Frame s)"
    and "twiDirection (step t Frame s) \<noteq> Some Backward"
  using recoveringAt_step [OF r k q] st tw
  by (simp_all add: step_def render_recoveringAt render_fields)

lemma run_recovering:
  assumes "recoveringAt k s" "hasStarted s" "twiDirection s \<noteq> Some Backward"
    and "undisturbed es" "noCollision es s" "k + frames es < 80"
  shows "recoveringAt (k + frames es) (run es s) \<and> hasStarted (run es s) \<and>
         twiDirection (run es s) \<noteq> Some Backward"
  using assms
proof (induction es arbitrary: s k)
  case Nil
  then show ?case by (simp add: frames_simps)
next
  case (Cons te es)
  obtain t e where te: "te = (t, e)" by (cases te)
  have u: "e \<noteq> KeyUp (Ctl Backward)" "e \<noteq> KeyUp KeyP" "undisturbed es"
    using Cons.prems(4) by (simp_all add: te undisturbed_simps)
  have n: "noCollision es (step t e s)"
    using Cons.prems(5) by (simp add: te)
  show ?case
  proof (cases "e = Frame")
    case True
    have q: "\<not> frameCollides s" using Cons.prems(5) True by (simp add: te)
    have k: "k < 80" "Suc k + frames es < 80"
      using Cons.prems(6) True by (simp_all add: te frames_simps)
    note f = recovering_frame [OF Cons.prems(1) k(1) Cons.prems(2,3) q, of t]
    from Cons.IH [OF f [folded True] u(3) n k(2)] show ?thesis
      by (simp add: te True frames_simps)
  next
    case False
    have k: "k < 80" "k + frames es < 80"
      using Cons.prems(6) False by (simp_all add: te frames_simps)
    note f = recovering_key [OF Cons.prems(1) k(1) Cons.prems(2,3) False u(1,2), of t]
    from Cons.IH [OF f u(3) n k(2)] show ?thesis
      by (simp add: te False frames_simps)
  qed
qed

text \<open>The run as far as its last frame, the 80th included.\<close>

lemma run_recovering_last:
  assumes "recoveringAt 0 s" "hasStarted s" "twiDirection s \<noteq> Some Backward"
    and "undisturbed es" "noCollision es s" "frames (butlast es) < 80"
  shows "frames es \<le> 80" and "recoveringAt (frames es) (run es s)"
proof -
  have "frames es \<le> 80 \<and> recoveringAt (frames es) (run es s)"
  proof (cases "frames es < 80")
    case True
    from run_recovering [OF assms(1-5), of ] True show ?thesis by simp
  next
    case False
    then have ne: "es \<noteq> []" by (auto simp: frames_simps)
    obtain t e where l: "last es = (t, e)" by (cases "last es")
    have es: "es = butlast es @ [(t, e)]" using ne l by (metis append_butlast_last_id)
    have fr: "frames es = frames (butlast es) + (if e = Frame then 1 else 0)"
      by (subst es) (simp add: frames_simps)
    have e: "e = Frame" and b: "frames (butlast es) = 79" and f80: "frames es = 80"
      using False assms(6) fr by (auto split: if_splits)
    have ub: "undisturbed (butlast es)"
      using assms(4) by (subst (asm) es) (simp add: undisturbed_simps)
    have nb: "noCollision (butlast es) s" and q: "\<not> frameCollides (run (butlast es) s)"
      using assms(5) by (subst (asm) es, simp add: noCollision_append e)+
    have "0 + frames (butlast es) < 80" using b by simp
    from run_recovering [OF assms(1-3) ub nb this]
    have r: "recoveringAt 79 (run (butlast es) s)" "hasStarted (run (butlast es) s)"
      "twiDirection (run (butlast es) s) \<noteq> Some Backward"
      by (simp_all add: b)
    have "recoveringAt (Suc 79) (step t Frame (run (butlast es) s))"
      by (rule recovering_frame(1) [OF r(1) _ r(2,3) q]) simp
    moreover have "run es s = step t Frame (run (butlast es) s)"
      by (subst es) (simp add: run_append e)
    ultimately show ?thesis by (simp add: f80)
  qed
  then show "frames es \<le> 80" and "recoveringAt (frames es) (run es s)" by simp_all
qed

text \<open>
  C6, with the events of the session between the frames. After \<open>crash\<close> the key-up
  handler stays registered, so the claim holds for the sessions in which neither the
  backward key nor p is released before the recovery ends. In a session, from a state as
  \<open>crash\<close> leaves it (crashed, the backward control pressed with the value \<open>maxReverse\<close>,
  the key-down handler removed) and not paused, let any events follow but those two
  key-ups, as far as the 80th frame at most, with no frame that collides. Then the
  backward value is \<open>maxReverse\<close> plus 0.000025 for every frame run, each frame adding
  exactly that step; before the 80th frame the value is negative and the crash state
  stands; in the 80th frame the value is exactly 0, the crash flag and the pressed flag
  are cleared and the key-down handler is registered.
\<close>

theorem crash_recovery:
  assumes "s = run es0 (initialState cv cb)"
    and "hasCrashed s" "pressed (controls s Backward)"
    "val (controls s Backward) = maxReverse" "\<not> keydownRegistered s" "\<not> isPaused s"
    and "undisturbed es" "noCollision es s" "frames (butlast es) < 80"
  shows "frames es \<le> 80 \<and>
         val (controls (run es s) Backward) = maxReverse + real (frames es) * 0.000025 \<and>
         (frames es < 80 \<longrightarrow>
            val (controls (run es s) Backward) < 0 \<and> hasCrashed (run es s) \<and>
            pressed (controls (run es s) Backward) \<and> \<not> keydownRegistered (run es s) \<and>
            (\<forall>t. \<not> frameCollides (run es s) \<longrightarrow>
                 val (controls (step t Frame (run es s)) Backward)
                   = val (controls (run es s) Backward) + 0.000025)) \<and>
         (frames es = 80 \<longrightarrow>
            val (controls (run es s) Backward) = 0 \<and> \<not> hasCrashed (run es s) \<and>
            \<not> pressed (controls (run es s) Backward) \<and> keydownRegistered (run es s))"
proof -
  have st: "hasStarted s" and tw: "twiDirection s \<noteq> Some Backward"
    using session_facts [of es0 cv cb] assms(1,2) by simp_all
  have r0: "recoveringAt 0 s"
    using assms(2-6) by (simp add: recoveringAt_def maxReverse_def)
  note l = run_recovering_last [OF r0 st tw assms(7,8,9)]
  have v: "val (controls (run es s) Backward) = maxReverse + real (frames es) * 0.000025"
    by (rule recoveringAt_value [OF l(2)])
  have a: "val (controls (run es s) Backward) < 0 \<and> hasCrashed (run es s) \<and>
           pressed (controls (run es s) Backward) \<and> \<not> keydownRegistered (run es s)"
    if "frames es < 80"
    using l(2) that by (simp add: recoveringAt_def)
  have b: "val (controls (step t Frame (run es s)) Backward)
             = val (controls (run es s) Backward) + 0.000025"
    if f: "frames es < 80" and q: "\<not> frameCollides (run es s)" for t
  proof -
    have "0 + frames es < 80" using f by simp
    from run_recovering [OF r0 st tw assms(7,8) this]
    have i: "recoveringAt (frames es) (run es s)" "hasStarted (run es s)"
      "twiDirection (run es s) \<noteq> Some Backward"
      by simp_all
    have "recoveringAt (Suc (frames es)) (step t Frame (run es s))"
      by (rule recovering_frame(1) [OF i(1) f i(2,3) q])
    from recoveringAt_value [OF this] v show ?thesis by (simp add: field_simps)
  qed
  have c: "val (controls (run es s) Backward) = 0 \<and> \<not> hasCrashed (run es s) \<and>
           \<not> pressed (controls (run es s) Backward) \<and> keydownRegistered (run es s)"
    if "frames es = 80"
    using l(2) that by (simp add: recoveringAt_def)
  show ?thesis using l(1) v a b c by blast
qed


section \<open>A crash recovery in a session on the pole track\<close>

lemma overPole_key:
  assumes "hasStarted s" "\<not> keydownRegistered s" "e \<noteq> Frame"
  shows "overPole (step t e s) y = overPole s y"
proof (cases e)
  case (KeyDown key)
  then show ?thesis using assms(2) by (simp add: step_def)
next
  case (KeyUp key)
  have "overPole (onKeyUp t key s) y = overPole s y"
    by (rule overPole_cong) (simp_all add: onKeyUp_game [OF assms(1)])
  then show ?thesis by (simp add: KeyUp step_def)
next
  case Frame
  then show ?thesis using assms(3) by simp
qed

lemma overPole_frame:
  assumes r: "recoveringAt k s" and k: "k < 80" and st: "hasStarted s" and o: "overPole s y"
  shows "\<not> frameCollides s" and "\<exists>y'. overPole (step t Frame s) y'"
proof -
  have h: "hasCrashed s" "pressed (controls s Backward)" "\<not> isPaused s"
    "val (controls s Backward) = of_int (25 * int k - 2000) / 1000000"
    using r k by (simp_all add: recoveringAt_def)
  show "\<not> frameCollides s"
    by (rule crashed_overPole_quiet [OF h(1,3) o])
  have a: "val (controls (accelerate s) Backward) = of_int (25 * int k - 2000 + 25) / 1000000"
    by (rule accelerate_backward_crashed [OF h(3,2,1,4)])
  have "25 * int k - 2000 + 25 \<le> 0" using k by simp
  then have le: "real_of_int (25 * int k - 2000 + 25) / 1000000 \<le> 0"
    by (simp del: of_int_add of_int_diff)
  have "overPole (updatePosition s) (y - of_int (25 * int k - 2000 + 25) / 1000000)"
    by (rule overPole_recovery_frame [OF h(1,3) o a le])
  then show "\<exists>y'. overPole (step t Frame s) y'"
    using st by (auto simp: step_def render_overPole)
qed

text \<open>
  Over the pole track, with the wide car box, no frame of a recovery collides, whatever
  events leave the recovery alone.
\<close>

lemma overPole_run:
  assumes "recoveringAt k s" "hasStarted s" "twiDirection s \<noteq> Some Backward"
    and "overPole s y" "undisturbed es" "k + frames es < 80"
  shows "noCollision es s \<and> (\<exists>y'. overPole (run es s) y')"
  using assms
proof (induction es arbitrary: s k y)
  case Nil
  then show ?case by auto
next
  case (Cons te es)
  obtain t e where te: "te = (t, e)" by (cases te)
  have u: "e \<noteq> KeyUp (Ctl Backward)" "e \<noteq> KeyUp KeyP" "undisturbed es"
    using Cons.prems(5) by (simp_all add: te undisturbed_simps)
  show ?case
  proof (cases "e = Frame")
    case True
    have k: "k < 80" "Suc k + frames es < 80"
      using Cons.prems(6) True by (simp_all add: te frames_simps)
    note q = overPole_frame(1) [OF Cons.prems(1) k(1) Cons.prems(2,4)]
    obtain y' where y': "overPole (step t Frame s) y'"
      using overPole_frame(2) [OF Cons.prems(1) k(1) Cons.prems(2,4), of t] by blast
    note f = recovering_frame [OF Cons.prems(1) k(1) Cons.prems(2,3) q, of t]
    from Cons.IH [OF f y' u(3) k(2)] q show ?thesis
      by (simp add: te True)
  next
    case False
    have k: "k < 80" "k + frames es < 80"
      using Cons.prems(6) False by (simp_all add: te frames_simps)
    have nk: "\<not> keydownRegistered s"
      using Cons.prems(1) k(1) by (simp add: recoveringAt_def)
    have o: "overPole (step t e s) y"
      using overPole_key [OF Cons.prems(2) nk False, of t y] Cons.prems(4) by simp
    note f = recovering_key [OF Cons.prems(1) k(1) Cons.prems(2,3) False u(1,2), of t]
    from Cons.IH [OF f o u(3) k(2)] show ?thesis
      by (simp add: te False)
  qed
qed

lemma overPole_run_last:
  assumes "recoveringAt k s" "hasStarted s" "twiDirection s \<noteq> Some Backward"
    and "overPole s y" "undisturbed es" "k + frames es < 80"
  shows "noCollision (es @ [(t, Frame)]) s"
proof -
  from overPole_run [OF assms] obtain y' where
    n: "noCollision es s" and o: "overPole (run es s) y'" by blast
  from run_recovering [OF assms(1,2,3,5) n assms(6)]
  have r: "recoveringAt (k + frames es) (run es s)" "hasStarted (run es s)" by simp_all
  have "\<not> frameCollides (run es s)"
    by (rule overPole_frame(1) [OF r(1) assms(6) r(2) o])
  then show ?thesis using n by (simp add: noCollision_append)
qed

text \<open>
  The game on the pole track with the wide car box: the first frame crashes the car; the
  player then releases the forward key and presses it again, and 80 frames follow.
\<close>

lemma afterFirstFrame_session:
  "afterFirstFrame cb = run [(0, KeyUp KeyOther), (0, KeyUp Key1)] (initialState poleTrack cb)"
  by (simp add: afterFirstFrame_def)

lemma afterFirstFrame_twi: "twiDirection (afterFirstFrame cb) = None"
  unfolding afterFirstFrame_eq
  by (simp add: updatePosition_twi atStart_def startPlaying_def setControls_def modeSelect_def
      initialState_def)

lemma recoverySession_snoc:
  "recoverySession =
     ((0, KeyUp (Ctl Forward)) # (0, KeyDown (Ctl Forward)) # replicate 79 (0, Frame))
       @ [(0, Frame)]"
proof -
  have "replicate (Suc 79) (0 :: int, Frame) = replicate 79 (0, Frame) @ [(0, Frame)]"
    by (simp only: replicate_Suc replicate_append_same)
  then show ?thesis by (simp add: recoverySession_def)
qed

lemma recoverySession_facts:
  "undisturbed recoverySession"
  "frames (butlast recoverySession) < 80"
  "frames recoverySession = 80"
  "noCollision recoverySession (afterFirstFrame wideBox)"
proof -
  let ?es = "(0, KeyUp (Ctl Forward)) # (0, KeyDown (Ctl Forward)) # replicate 79 (0, Frame)"
  show "undisturbed recoverySession"
    by (simp add: recoverySession_def undisturbed_simps)
  show "frames (butlast recoverySession) < 80"
    unfolding recoverySession_snoc butlast_snoc by (simp add: frames_simps)
  show "frames recoverySession = 80"
    by (simp add: recoverySession_def frames_simps)
  have r: "recoveringAt 0 (afterFirstFrame wideBox)"
    using crashed_facts by (simp add: recoveringAt_def maxReverse_def)
  have o: "overPole (afterFirstFrame wideBox) (- 0.15)"
    by (simp add: overPole_def onPole_def afterFirstFrame_fields)
  have st: "hasStarted (afterFirstFrame wideBox)"
    and tw: "twiDirection (afterFirstFrame wideBox) \<noteq> Some Backward"
    by (simp_all add: afterFirstFrame_fields afterFirstFrame_twi)
  have u: "undisturbed ?es" by (simp add: undisturbed_simps)
  have f: "0 + frames ?es < 80" by (simp add: frames_simps)
  show "noCollision recoverySession (afterFirstFrame wideBox)"
    unfolding recoverySession_snoc by (rule overPole_run_last [OF r st tw o u f])
qed

theorem crash_recovery_witness:
  "afterFirstFrame wideBox
     = run [(0, KeyUp KeyOther), (0, KeyUp Key1)] (initialState poleTrack wideBox) \<and>
   hasCrashed (afterFirstFrame wideBox) \<and>
   pressed (controls (afterFirstFrame wideBox) Backward) \<and>
   val (controls (afterFirstFrame wideBox) Backward) = maxReverse \<and>
   \<not> keydownRegistered (afterFirstFrame wideBox) \<and>
   \<not> isPaused (afterFirstFrame wideBox) \<and>
   undisturbed recoverySession \<and>
   noCollision recoverySession (afterFirstFrame wideBox) \<and>
   frames (butlast recoverySession) < 80 \<and>
   frames recoverySession = 80 \<and>
   val (controls (run recoverySession (afterFirstFrame wideBox)) Backward) = 0 \<and>
   \<not> hasCrashed (run recoverySession (afterFirstFrame wideBox)) \<and>
   \<not> pressed (controls (run recoverySession (afterFirstFrame wideBox)) Backward) \<and>
   keydownRegistered (run recoverySession (afterFirstFrame wideBox))"
  using crash_recovery [OF afterFirstFrame_session crashed_facts recoverySession_facts(1,4,2)]
    afterFirstFrame_session [of wideBox] crashed_facts recoverySession_facts
  by simp

text \<open>
  C6 as stated fails when the backward key is released during the recovery: the key-up
  clears \<open>controls[backward].pressed\<close>, and the next frame, unpaused and without a
  collision, adds the step 0.000005 of a released key, not 0.000025.
\<close>

theorem crash_recovery_keyup_counterexample:
  "hasCrashed (afterFirstFrame wideBox) \<and>
   pressed (controls (afterFirstFrame wideBox) Backward) \<and>
   val (controls (afterFirstFrame wideBox) Backward) = - 0.002 \<and>
   \<not> keydownRegistered (afterFirstFrame wideBox) \<and>
   \<not> isPaused (afterFirstFrame wideBox) \<and>
   noCollision [(0, KeyUp (Ctl Backward)), (0, Frame)] (afterFirstFrame wideBox) \<and>
   \<not> isPaused (step 0 (KeyUp (Ctl Backward)) (afterFirstFrame wideBox)) \<and>
   hasCrashed (step 0 (KeyUp (Ctl Backward)) (afterFirstFrame wideBox)) \<and>
   val (controls (step 0 (KeyUp (Ctl Backward)) (afterFirstFrame wideBox)) Backward) = - 0.002 \<and>
   val (controls (run [(0, KeyUp (Ctl Backward)), (0, Frame)] (afterFirstFrame wideBox))
          Backward) = - 0.001995"
proof -
  let ?c = "afterFirstFrame wideBox"
  let ?s = "step 0 (KeyUp (Ctl Backward)) ?c"
  have e: "?s = setPressed Backward False ?c"
    by (simp add: step_def onKeyUp_def Let_def afterFirstFrame_fields afterFirstFrame_twi
        setPressed_def)
  have f: "hasCrashed ?s" "\<not> isPaused ?s" "hasStarted ?s"
    "\<not> pressed (controls ?s Backward)" "val (controls ?s Backward) = of_int (- 2000) / 1000000"
    unfolding e by (simp_all add: setPressed_def afterFirstFrame_fields maxReverse_def)
  have "overPole ?s (- 0.15) = overPole ?c (- 0.15)"
    unfolding e by (rule overPole_cong) (simp_all add: setPressed_def)
  then have o: "overPole ?s (- 0.15)"
    by (simp add: overPole_def onPole_def afterFirstFrame_fields)
  have q: "\<not> frameCollides ?s"
    by (rule crashed_overPole_quiet [OF f(1,2) o])
  have rf: "- reverseFactor = of_int 5 / 1000000" by (simp add: reverseFactor_def)
  have "val (controls (accelerate ?s) Backward)
          = round_val (of_int (- 2000) / 1000000) (of_int 5 / 1000000)"
    unfolding accelerate_backward Let_def f(5) rf using f(2,4) by simp
  then have a: "val (controls (accelerate ?s) Backward) = - 0.001995"
    unfolding round_val_step by simp
  have "controls (step 0 Frame ?s) = controls (snd (controlStep ?s))"
    unfolding step_Frame [OF f(3)] render_fields by (rule updatePosition_quiet(1) [OF q])
  then have v: "val (controls (step 0 Frame ?s) Backward) = - 0.001995"
    unfolding controlStep_recovering(1) [OF f(1,2)] using a by simp
  have v0: "val (controls ?s Backward) = - 0.002" using f(5) by simp
  show ?thesis
    using crashed_facts f(1,2) v0 v q by (simp add: maxReverse_def)
qed

end
